theory Spec2Isabelle
  imports Main "HOL-Library.Multiset"
begin

section \<open>Data model\<close>

text \<open>
  The Python code passes dictionaries with a fixed set of keys between its stages. A
  dictionary of the scanner (\<open>{'port': port, 'service': service}\<close>) is the record
  \<open>port_info\<close>; a dictionary built by \<open>RiskEngine.assess_risks\<close> has the same two keys and
  four more, so it is the extension \<open>risk_result\<close>. Ports and counts are Python integers
  (\<open>int\<close>); service names and risk levels are Python strings (\<open>string\<close>).
\<close>

record port_info =
  port :: int
  service :: string

record risk_result = port_info +
  risk_level :: string
  risk_color :: string
  reason :: string
  mitigation :: string

text \<open>An entry of \<open>RISK_LEVELS\<close> and an entry of \<open>SERVICE_RISKS\<close>.\<close>

record level_info =
  score :: int
  color :: string

record risk_profile =
  risk :: string
  profile_reason :: string
  profile_mitigation :: string

text \<open>The dictionary returned by \<open>get_security_rating\<close>.\<close>

record rating_info =
  rating :: string
  description :: string
  rating_colour :: string

text \<open>The dictionary returned by \<open>generate_executive_summary\<close>.\<close>

record executive_summary =
  security_score :: int
  summary_rating :: string
  rating_description :: string
  rating_color :: string
  total_open_ports :: int
  high_risk_count :: int
  medium_risk_count :: int
  low_risk_count :: int
  priority_actions :: "string list"

text \<open>Exceptions of the Python code that the model keeps as values.\<close>

datatype py_error = KeyError string

section \<open>Python string helpers\<close>

text \<open>\<open>str(n)\<close> for a Python integer: decimal digits, with a leading minus sign.\<close>

definition digit_char :: "nat \<Rightarrow> char" where
  "digit_char d = ''0123456789'' ! d"

fun str_nat :: "nat \<Rightarrow> string" where
  "str_nat n = (if n < 10 then [digit_char n] else str_nat (n div 10) @ [digit_char (n mod 10)])"

declare str_nat.simps [simp del]

definition str_int :: "int \<Rightarrow> string" where
  "str_int i = (if i < 0 then CHR ''-'' # str_nat (nat (- i)) else str_nat (nat i))"

text \<open>\<open>sep.join(xs)\<close>.\<close>

fun join :: "string \<Rightarrow> string list \<Rightarrow> string" where
  "join sep [] = []"
| "join sep [x] = x"
| "join sep (x # y # ys) = x @ sep @ join sep (y # ys)"

text \<open>\<open>len(xs)\<close> as a Python integer, and \<open>sum(1 for r in xs if p(r))\<close>.\<close>

definition len :: "'a list \<Rightarrow> int" where
  "len xs = int (length xs)"

definition count_if :: "('a \<Rightarrow> bool) \<Rightarrow> 'a list \<Rightarrow> int" where
  "count_if p xs = sum_list (map (\<lambda>r. if p r then 1 else 0) xs)"

section \<open>Risk engine (risk\_engine.py)\<close>

subsection \<open>The static tables\<close>

definition RISK_LEVELS :: "(string \<times> level_info) list" where
  "RISK_LEVELS =
    [(''HIGH'', \<lparr>score = 30, color = ''#dc3545''\<rparr>),
     (''MEDIUM'', \<lparr>score = 15, color = ''#ffc107''\<rparr>),
     (''LOW'', \<lparr>score = 5, color = ''#28a745''\<rparr>)]"

definition SERVICE_RISKS :: "(string \<times> risk_profile) list" where
  "SERVICE_RISKS =
    [(''Telnet'', \<lparr>risk = ''HIGH'',
        profile_reason = ''Unencrypted protocol transmitting credentials in plaintext'',
        profile_mitigation = ''Replace with SSH. Disable Telnet service immediately.''\<rparr>),
     (''FTP'', \<lparr>risk = ''HIGH'',
        profile_reason = ''Unencrypted file transfer with plaintext authentication'',
        profile_mitigation = ''Use SFTP or FTPS. Configure with strong authentication.''\<rparr>),
     (''SMB'', \<lparr>risk = ''HIGH'',
        profile_reason = ''Vulnerable to ransomware and lateral movement attacks'',
        profile_mitigation = ''Restrict access with firewall rules. Keep SMB version updated. Enable SMB signing.''\<rparr>),
     (''RDP'', \<lparr>risk = ''HIGH'',
        profile_reason = ''Common target for brute-force attacks and exploitation'',
        profile_mitigation = ''Use VPN for access. Enable Network Level Authentication. Implement MFA.''\<rparr>),
     (''VNC'', \<lparr>risk = ''HIGH'',
        profile_reason = ''Often configured with weak passwords or no encryption'',
        profile_mitigation = ''Use SSH tunneling. Implement strong authentication. Consider alternatives.''\<rparr>),
     (''MySQL'', \<lparr>risk = ''HIGH'',
        profile_reason = ''Database exposed to internet increases attack surface'',
        profile_mitigation = ''Bind to localhost only. Use firewall rules. Implement strong passwords.''\<rparr>),
     (''PostgreSQL'', \<lparr>risk = ''HIGH'',
        profile_reason = ''Database service should not be publicly accessible'',
        profile_mitigation = ''Restrict to internal network. Use pg_hba.conf properly. Enable SSL.''\<rparr>),
     (''HTTP'', \<lparr>risk = ''MEDIUM'',
        profile_reason = ''Unencrypted web traffic vulnerable to interception'',
        profile_mitigation = ''Implement HTTPS with valid SSL/TLS certificates. Redirect HTTP to HTTPS.''\<rparr>),
     (''HTTP-Proxy'', \<lparr>risk = ''MEDIUM'',
        profile_reason = ''Proxy service may allow unauthorized access'',
        profile_mitigation = ''Implement authentication. Restrict access by IP whitelist.''\<rparr>),
     (''HTTPS-Alt'', \<lparr>risk = ''MEDIUM'',
        profile_reason = ''Non-standard HTTPS port may be misconfigured'',
        profile_mitigation = ''Ensure proper SSL/TLS configuration. Use standard ports when possible.''\<rparr>),
     (''SMTP'', \<lparr>risk = ''MEDIUM'',
        profile_reason = ''Mail server can be abused for spam or relay attacks'',
        profile_mitigation = ''Configure SPF, DKIM, DMARC. Disable open relay. Use authentication.''\<rparr>),
     (''POP3'', \<lparr>risk = ''MEDIUM'',
        profile_reason = ''Unencrypted email retrieval protocol'',
        profile_mitigation = ''Use POP3S (SSL/TLS). Consider IMAP with encryption instead.''\<rparr>),
     (''IMAP'', \<lparr>risk = ''MEDIUM'',
        profile_reason = ''Email protocol without encryption'',
        profile_mitigation = ''Use IMAPS (SSL/TLS). Enforce strong authentication.''\<rparr>),
     (''DNS'', \<lparr>risk = ''MEDIUM'',
        profile_reason = ''DNS server may be vulnerable to amplification attacks'',
        profile_mitigation = ''Restrict recursive queries. Implement rate limiting. Use DNSSEC.''\<rparr>),
     (''HTTPS'', \<lparr>risk = ''LOW'',
        profile_reason = ''Encrypted web service (validate certificate and configuration)'',
        profile_mitigation = ''Keep SSL/TLS updated. Use strong ciphers. Monitor certificate expiration.''\<rparr>),
     (''SSH'', \<lparr>risk = ''LOW'',
        profile_reason = ''Secure but requires proper configuration'',
        profile_mitigation = ''Disable password auth. Use key-based authentication. Change default port.''\<rparr>),
     (''FTP-DATA'', \<lparr>risk = ''LOW'',
        profile_reason = ''FTP data channel (assess based on FTP configuration)'',
        profile_mitigation = ''Secure if using FTPS. Otherwise follow FTP mitigation strategies.''\<rparr>),
     (''Unknown'', \<lparr>risk = ''MEDIUM'',
        profile_reason = ''Unidentified service requires investigation'',
        profile_mitigation = ''Investigate service identity. Close if unnecessary. Ensure proper security.''\<rparr>)]"

text \<open>
  \<open>d[k]\<close> on a dictionary raises \<open>KeyError\<close> for a missing key; \<open>d.get(k, default)\<close>
  returns the default instead.
\<close>

definition subscript :: "(string \<times> 'v) list \<Rightarrow> string \<Rightarrow> py_error + 'v" where
  "subscript d k = (case map_of d k of None \<Rightarrow> Inl (KeyError k) | Some v \<Rightarrow> Inr v)"

definition dict_get :: "(string \<times> 'v) list \<Rightarrow> string \<Rightarrow> 'v \<Rightarrow> 'v" where
  "dict_get d k dflt = (case map_of d k of None \<Rightarrow> dflt | Some v \<Rightarrow> v)"

subsection \<open>get\_risk\_profile\<close>

text \<open>
  \<open>return self.SERVICE_RISKS.get(service, self.SERVICE_RISKS['Unknown'])\<close>: the default
  argument is evaluated first, and its subscript is the only place that can raise.
\<close>

definition get_risk_profile :: "string \<Rightarrow> py_error + risk_profile" where
  "get_risk_profile svc =
     (case subscript SERVICE_RISKS ''Unknown'' of
        Inl e \<Rightarrow> Inl e
      | Inr dflt \<Rightarrow> Inr (dict_get SERVICE_RISKS svc dflt))"

subsection \<open>get\_security\_rating\<close>

definition get_security_rating :: "int \<Rightarrow> rating_info" where
  "get_security_rating sc =
     (if sc \<ge> 90 then
        \<lparr>rating = ''EXCELLENT'',
         description = ''Very secure configuration with minimal attack surface'',
         rating_colour = ''#28a745''\<rparr>
      else if sc \<ge> 70 then
        \<lparr>rating = ''GOOD'',
         description = ''Secure with minor improvements needed'',
         rating_colour = ''#20c997''\<rparr>
      else if sc \<ge> 50 then
        \<lparr>rating = ''FAIR'',
         description = ''Moderate security concerns require attention'',
         rating_colour = ''#ffc107''\<rparr>
      else if sc \<ge> 30 then
        \<lparr>rating = ''POOR'',
         description = ''Significant security vulnerabilities present'',
         rating_colour = ''#fd7e14''\<rparr>
      else
        \<lparr>rating = ''CRITICAL'',
         description = ''Severe security issues requiring immediate action'',
         rating_colour = ''#dc3545''\<rparr>)"

subsection \<open>assess\_risks\<close>

text \<open>
  The body of the loop over \<open>open_ports\<close>: the profile of the service, then the dictionary
  for the result. \<open>self.RISK_LEVELS[risk_profile['risk']]\<close> is a subscript and can raise.
\<close>

definition assess_one :: "port_info \<Rightarrow> py_error + risk_result" where
  "assess_one pinfo =
     (case get_risk_profile (service pinfo) of
        Inl e \<Rightarrow> Inl e
      | Inr prof \<Rightarrow>
          (case subscript RISK_LEVELS (risk prof) of
             Inl e \<Rightarrow> Inl e
           | Inr lvl \<Rightarrow>
               Inr \<lparr>port = port pinfo, service = service pinfo,
                    risk_level = risk prof, risk_color = color lvl,
                    reason = profile_reason prof, mitigation = profile_mitigation prof\<rparr>))"

fun assess_loop :: "risk_result list \<Rightarrow> port_info list \<Rightarrow> py_error + risk_result list" where
  "assess_loop risk_results [] = Inr risk_results"
| "assess_loop risk_results (pinfo # rest) =
     (case assess_one pinfo of
        Inl e \<Rightarrow> Inl e
      | Inr result \<Rightarrow> assess_loop (risk_results @ [result]) rest)"

definition assess_risks :: "port_info list \<Rightarrow> py_error + risk_result list" where
  "assess_risks open_ports = assess_loop [] open_ports"

subsection \<open>calculate\_security\_score\<close>

fun total_risk_loop :: "int \<Rightarrow> risk_result list \<Rightarrow> py_error + int" where
  "total_risk_loop total_risk [] = Inr total_risk"
| "total_risk_loop total_risk (result # rest) =
     (case subscript RISK_LEVELS (risk_level result) of
        Inl e \<Rightarrow> Inl e
      | Inr lvl \<Rightarrow> total_risk_loop (total_risk + score lvl) rest)"

definition calculate_security_score :: "risk_result list \<Rightarrow> py_error + int" where
  "calculate_security_score risk_results =
     (if risk_results = [] then Inr 100
      else case total_risk_loop 0 risk_results of
             Inl e \<Rightarrow> Inl e
           | Inr total_risk \<Rightarrow> Inr (max 0 (100 - total_risk)))"

subsection \<open>generate\_executive\_summary\<close>

definition generate_executive_summary :: "risk_result list \<Rightarrow> int \<Rightarrow> executive_summary" where
  "generate_executive_summary risk_results sec_score =
     (let high_count = count_if (\<lambda>r. risk_level r = ''HIGH'') risk_results;
          medium_count = count_if (\<lambda>r. risk_level r = ''MEDIUM'') risk_results;
          low_count = count_if (\<lambda>r. risk_level r = ''LOW'') risk_results;
          rtg = get_security_rating sec_score;
          actions = [];
          actions = (if high_count > 0
                     then actions @ [''Address '' @ str_int high_count @ '' HIGH risk service(s) immediately'']
                     else actions);
          actions = (if medium_count > 0
                     then actions @ [''Review '' @ str_int medium_count @ '' MEDIUM risk service(s)'']
                     else actions);
          actions = (if actions = []
                     then actions @ [''Continue monitoring and maintain security posture'']
                     else actions)
      in \<lparr>security_score = sec_score,
          summary_rating = rating rtg,
          rating_description = description rtg,
          rating_color = rating_colour rtg,
          total_open_ports = len risk_results,
          high_risk_count = high_count,
          medium_risk_count = medium_count,
          low_risk_count = low_count,
          priority_actions = actions\<rparr>)"

subsection \<open>simulate\_attack\_scenarios\<close>

text \<open>
  The narrative strings. Each one is the f-string of the source, as a function of the
  values it interpolates.
\<close>

definition services_listing :: "risk_result list \<Rightarrow> string" where
  "services_listing rs = join '', '' (map (\<lambda>r. service r @ ''('' @ str_int (port r) @ '')'') rs)"

definition remote_access_text :: "string \<Rightarrow> string" where
  "remote_access_text high_services =
     ''CRITICAL: Remote Access Exploitation - Detected remote access services ''
     @ ''('' @ high_services @ ''). Attackers could exploit weak credentials or protocol vulnerabilities ''
     @ ''to gain initial system access. Implement MFA, use VPN, and enforce strong password policies.''"

definition lateral_movement_text :: "string \<Rightarrow> string" where
  "lateral_movement_text high_services =
     ''CRITICAL: Lateral Movement Vector - Detected file sharing/transfer protocols ''
     @ ''('' @ high_services @ ''). Successfully compromised systems could leverage these services ''
     @ ''to move laterally across the network and exfiltrate sensitive data.''"

definition database_text :: "string \<Rightarrow> string" where
  "database_text high_services =
     ''CRITICAL: Database Compromise - Exposed database services ('' @ high_services @ '') ''
     @ ''are prime targets. Direct database access bypasses application security controls ''
     @ ''and could lead to complete data breach. Implement network segmentation immediately.''"

definition telnet_text :: string where
  "telnet_text =
     ''CRITICAL: Credential Interception - Telnet transmits all data including credentials ''
     @ ''in plaintext. Network-based attackers can intercept login credentials without any special tools. ''
     @ ''This service must be disabled and replaced with SSH.''"

definition vnc_text :: string where
  "vnc_text =
     ''CRITICAL: Remote Desktop Hijacking - VNC services often have weak or default passwords. ''
     @ ''Attackers can gain interactive desktop access for reconnaissance, data theft, or deploying malware. ''
     @ ''Enforce encryption and multi-factor authentication.''"

definition web_text :: "string \<Rightarrow> string" where
  "web_text medium_services =
     ''HIGH: Web Service Exploitation - Detected web services ('' @ medium_services @ ''). ''
     @ ''These are common attack vectors for credential harvesting, session hijacking, or application exploits. ''
     @ ''Ensure all web services use HTTPS, apply security patches, and implement Web Application Firewalls.''"

definition email_text :: "string \<Rightarrow> string" where
  "email_text medium_services =
     ''HIGH: Email Service Abuse - Detected email services ('' @ medium_services @ ''). ''
     @ ''Misconfigured mail servers can be exploited as open relays for spam, phishing campaigns, or credential attacks. ''
     @ ''Enforce authentication, disable unnecessary protocols, and implement email filtering.''"

definition dns_text :: string where
  "dns_text =
     ''HIGH: DNS Infrastructure Abuse - Exposed DNS services can be exploited for cache poisoning, ''
     @ ''DNS amplification attacks, or unauthorized zone transfers. Implement access controls, rate limiting, and DNSSEC.''"

definition vigilance_text :: "string \<Rightarrow> string" where
  "vigilance_text low_services =
     ''RECOMMENDED: Maintain Vigilance - Detected low-risk services ('' @ low_services @ ''). ''
     @ ''While these services have proper security controls, continuous monitoring is essential. ''
     @ ''Keep systems patched, monitor logs for suspicious activity, and maintain security awareness.''"

text \<open>The critical summary starts with U+26A0 U+FE0F (six bytes of UTF-8) and two spaces.\<close>

definition critical_summary_text :: "int \<Rightarrow> string" where
  "critical_summary_text n =
     [CHR 0xE2, CHR 0x9A, CHR 0xA0, CHR 0xEF, CHR 0xB8, CHR 0x8F]
     @ ''  ATTACK SURFACE SUMMARY: System has '' @ str_int n @ '' critical vulnerabilities. ''
     @ ''This represents a HIGH risk of compromise. Prioritize immediate remediation of all HIGH risk services ''
     @ ''to prevent unauthorized access and data breach.''"

definition moderate_summary_text :: "int \<Rightarrow> string" where
  "moderate_summary_text n =
     ''ATTACK SURFACE SUMMARY: System has '' @ str_int n @ '' moderate vulnerabilities. ''
     @ ''These should be addressed within your regular patch and hardening cycle. Implement layered defenses.''"

definition minimal_summary_text :: string where
  "minimal_summary_text =
     ''ATTACK SURFACE SUMMARY: System shows minimal attack surface with only low-risk services detected. ''
     @ ''Maintain current security posture through regular monitoring and updates.''"

text \<open>
  \<open>any(r['service'] in group for r in ports)\<close>; a test \<open>r['service'] == 'Telnet'\<close> is the
  same with a one-element group.
\<close>

definition any_service_in :: "string list \<Rightarrow> risk_result list \<Rightarrow> bool" where
  "any_service_in grp ports = list_ex (\<lambda>r. service r \<in> set grp) ports"

text \<open>
  The function itself: \<open>attack_scenarios\<close> is threaded through the \<open>if\<close> statements in
  the order of the source, each \<open>append\<close> adding one string at the end.
\<close>

definition simulate_attack_scenarios :: "risk_result list \<Rightarrow> string list" where
  "simulate_attack_scenarios risk_results =
     (let scenarios = [] in
      if risk_results = [] then [''No open ports detected. Current attack surface is minimal.'']
      else
        let high_risk_ports = filter (\<lambda>r. risk_level r = ''HIGH'') risk_results;
            medium_risk_ports = filter (\<lambda>r. risk_level r = ''MEDIUM'') risk_results;
            low_risk_ports = filter (\<lambda>r. risk_level r = ''LOW'') risk_results;
            scenarios =
              (if high_risk_ports \<noteq> [] then
                 let high_services = services_listing high_risk_ports;
                     scenarios = (if any_service_in [''RDP'', ''SSH'', ''Telnet''] high_risk_ports
                                  then scenarios @ [remote_access_text high_services] else scenarios);
                     scenarios = (if any_service_in [''SMB'', ''FTP''] high_risk_ports
                                  then scenarios @ [lateral_movement_text high_services] else scenarios);
                     scenarios = (if any_service_in [''MySQL'', ''PostgreSQL''] high_risk_ports
                                  then scenarios @ [database_text high_services] else scenarios);
                     scenarios = (if any_service_in [''Telnet''] high_risk_ports
                                  then scenarios @ [telnet_text] else scenarios);
                     scenarios = (if any_service_in [''VNC''] high_risk_ports
                                  then scenarios @ [vnc_text] else scenarios)
                 in scenarios
               else scenarios);
            scenarios =
              (if medium_risk_ports \<noteq> [] then
                 let medium_services = services_listing medium_risk_ports;
                     scenarios = (if any_service_in [''HTTP'', ''HTTP-Proxy'', ''HTTPS-Alt''] medium_risk_ports
                                  then scenarios @ [web_text medium_services] else scenarios);
                     scenarios = (if any_service_in [''SMTP'', ''POP3'', ''IMAP''] medium_risk_ports
                                  then scenarios @ [email_text medium_services] else scenarios);
                     scenarios = (if any_service_in [''DNS''] medium_risk_ports
                                  then scenarios @ [dns_text] else scenarios)
                 in scenarios
               else scenarios);
            scenarios =
              (if low_risk_ports \<noteq> [] then
                 let low_services = services_listing low_risk_ports
                 in scenarios @ [vigilance_text low_services]
               else scenarios);
            scenarios =
              (if len high_risk_ports > 0 then
                 scenarios @ [critical_summary_text (len high_risk_ports)]
               else if len medium_risk_ports > 0 then
                 scenarios @ [moderate_summary_text (len medium_risk_ports)]
               else
                 scenarios @ [minimal_summary_text])
        in scenarios)"

section \<open>Scanner (scanner.py)\<close>

subsection \<open>The network\<close>

text \<open>
  The body of the \<open>try\<close> statement of \<open>scan_port\<close> creates a socket, sets the timeout, calls
  \<open>connect_ex\<close> and closes the socket. What it does depends on the network alone: it
  yields the integer result of \<open>connect_ex\<close> (0 when the connection succeeded) or raises.
  The exceptions are kept by the handler that catches them: \<open>socket.gaierror\<close> (the target
  cannot be resolved), \<open>socket.error\<close>, and any other \<open>Exception\<close>.
  \<open>socket.getservbyport(port, 'tcp')\<close> returns a name or raises (\<open>None\<close>).
  Both are parameters of the model. One scan probes a port at most once, so a function of
  the address and the port describes the answers of the network during the scan.
\<close>

datatype exn = Gaierror | SocketError | OtherError

record network =
  connect_ex :: "string \<Rightarrow> int \<Rightarrow> exn + int"
  getservbyport :: "int \<Rightarrow> string option"

subsection \<open>scan\_port and get\_service\_name\<close>

text \<open>
  \<open>scan_port\<close> returns \<open>result == 0\<close>; each of the three handlers returns \<open>False\<close> (after
  logging), so no exception leaves the function.
\<close>

definition scan_port :: "network \<Rightarrow> string \<Rightarrow> int \<Rightarrow> bool" where
  "scan_port net ip p =
     (case connect_ex net ip p of
        Inr result \<Rightarrow> result = 0
      | Inl Gaierror \<Rightarrow> False
      | Inl SocketError \<Rightarrow> False
      | Inl OtherError \<Rightarrow> False)"

definition COMMON_SERVICES :: "(int \<times> string) list" where
  "COMMON_SERVICES =
     [(20, ''FTP-DATA''), (21, ''FTP''), (22, ''SSH''), (23, ''Telnet''), (25, ''SMTP''),
      (53, ''DNS''), (80, ''HTTP''), (110, ''POP3''), (143, ''IMAP''), (443, ''HTTPS''),
      (445, ''SMB''), (3306, ''MySQL''), (3389, ''RDP''), (5432, ''PostgreSQL''),
      (5900, ''VNC''), (8080, ''HTTP-Proxy''), (8443, ''HTTPS-Alt'')]"

text \<open>\<open>str.upper()\<close> on the ASCII letters of a service name.\<close>

definition upper_char :: "char \<Rightarrow> char" where
  "upper_char c =
     (let n = (of_char c :: nat) in if 97 \<le> n \<and> n \<le> 122 then char_of (n - 32) else c)"

text \<open>
  The table first, then \<open>getservbyport\<close> in upper case, and \<open>'Unknown'\<close> when that raises
  (the bare \<open>except\<close>).
\<close>

definition get_service_name :: "network \<Rightarrow> int \<Rightarrow> string" where
  "get_service_name net p =
     (case map_of COMMON_SERVICES p of
        Some name \<Rightarrow> name
      | None \<Rightarrow>
          (case getservbyport net p of
             Some name \<Rightarrow> map upper_char name
           | None \<Rightarrow> ''Unknown''))"

subsection \<open>The threads of one scan\<close>

text \<open>
  \<open>scan\<close> starts \<open>num_threads\<close> threads running \<open>worker\<close>, puts every port of
  \<open>range(start_port, end_port + 1)\<close> into the queue, waits in \<open>queue.join()\<close>, puts one
  \<open>None\<close> per thread, joins the threads, sorts \<open>self.open_ports\<close> in place and returns it.
  The threads interleave, so the scan is a state machine: the shared state is the queue
  (\<open>None\<close> is the sentinel), the queue's count of unfinished tasks, and \<open>open_ports\<close>;
  each thread has its own position in its code.

  A worker is \<open>Waiting\<close> in \<open>queue.get()\<close>, \<open>Scanning\<close> the port it took, \<open>Finishing\<close>
  (about to call \<open>task_done\<close>) or \<open>Exited\<close>. The main thread is putting the remaining ports,
  waiting in \<open>queue.join()\<close>, putting the remaining sentinels, joining the threads, or has
  returned.
\<close>

datatype worker = Waiting | Scanning int | Finishing | Exited

datatype main_pc = Putting "int list" | Joining | Stopping nat | JoiningThreads | Returned

record scanner =
  queue :: "int option list"
  unfinished_tasks :: nat
  open_ports :: "port_info list"
  workers :: "worker list"
  pc :: main_pc

text \<open>
  The state after \<open>self.open_ports = []\<close> and the start of the threads. \<open>scan\<close> resets
  \<open>open_ports\<close> only: the queue is the one created by \<open>__init__\<close>, once for the scanner
  object. It holds no item when no other scan of the object is running (a scan that
  returned has had each of its sentinels taken by a worker), which is the way the
  specification requires the scanner to be used. Its count of unfinished tasks is what
  earlier scans of the object left, the parameter \<open>unfinished\<close>: 0 on a new object, and
  \<open>num_threads\<close> after a scan that returned, since \<open>put\<close> counts the sentinels and no
  worker calls \<open>task_done\<close> for a sentinel.
\<close>

definition start_scan :: "nat \<Rightarrow> nat \<Rightarrow> int \<Rightarrow> int \<Rightarrow> scanner" where
  "start_scan num_threads unfinished start_port end_port =
     \<lparr>queue = [], unfinished_tasks = unfinished, open_ports = [],
      workers = replicate num_threads Waiting,
      pc = Putting [start_port..end_port]\<rparr>"

text \<open>
  One step of the main thread. \<open>queue.put\<close> counts every item, sentinels too, as an
  unfinished task. \<open>queue.join()\<close> and the joins of the threads block (\<open>None\<close>: no step)
  until their condition holds.
\<close>

datatype event = Main | Worker nat

definition main_step :: "scanner \<Rightarrow> scanner option" where
  "main_step s =
     (case pc s of
        Putting [] \<Rightarrow> Some (s\<lparr>pc := Joining\<rparr>)
      | Putting (p # rest) \<Rightarrow>
          Some (s\<lparr>queue := queue s @ [Some p],
                 unfinished_tasks := unfinished_tasks s + 1,
                 pc := Putting rest\<rparr>)
      | Joining \<Rightarrow>
          if unfinished_tasks s = 0 then Some (s\<lparr>pc := Stopping (length (workers s))\<rparr>)
          else None
      | Stopping 0 \<Rightarrow> Some (s\<lparr>pc := JoiningThreads\<rparr>)
      | Stopping (Suc k) \<Rightarrow>
          Some (s\<lparr>queue := queue s @ [None],
                 unfinished_tasks := unfinished_tasks s + 1,
                 pc := Stopping k\<rparr>)
      | JoiningThreads \<Rightarrow>
          if list_all (\<lambda>w. w = Exited) (workers s)
          then Some (s\<lparr>open_ports := sort_key port (open_ports s), pc := Returned\<rparr>)
          else None
      | Returned \<Rightarrow> None)"

text \<open>
  One step of worker \<open>i\<close>. \<open>queue.get()\<close> blocks on an empty queue; a sentinel ends the
  loop. The probe, the lookup of the name and the append under the lock are one step: only
  the append touches shared state. \<open>task_done\<close> raises \<open>ValueError\<close> when no task is
  unfinished, which would end the thread.
\<close>

definition worker_step :: "network \<Rightarrow> string \<Rightarrow> nat \<Rightarrow> scanner \<Rightarrow> scanner option" where
  "worker_step net ip i s =
     (if i < length (workers s) then
        case workers s ! i of
          Waiting \<Rightarrow>
            (case queue s of
               [] \<Rightarrow> None
             | item # rest \<Rightarrow>
                 Some (s\<lparr>queue := rest,
                        workers := (workers s)[i := (case item of None \<Rightarrow> Exited | Some p \<Rightarrow> Scanning p)]\<rparr>))
        | Scanning p \<Rightarrow>
            Some (s\<lparr>open_ports :=
                       (if scan_port net ip p
                        then open_ports s @ [\<lparr>port = p, service = get_service_name net p\<rparr>]
                        else open_ports s),
                   workers := (workers s)[i := Finishing]\<rparr>)
        | Finishing \<Rightarrow>
            if unfinished_tasks s = 0 then Some (s\<lparr>workers := (workers s)[i := Exited]\<rparr>)
            else Some (s\<lparr>unfinished_tasks := unfinished_tasks s - 1,
                        workers := (workers s)[i := Waiting]\<rparr>)
        | Exited \<Rightarrow> None
      else None)"

text \<open>
  A schedule is the order in which the threads take their steps. \<open>run\<close> follows a schedule
  and is undefined when it asks a blocked thread to move; \<open>scan\<close> is the list returned when
  the schedule takes the main thread to its \<open>return\<close>.
\<close>

fun step :: "network \<Rightarrow> string \<Rightarrow> event \<Rightarrow> scanner \<Rightarrow> scanner option" where
  "step net ip Main s = main_step s"
| "step net ip (Worker i) s = worker_step net ip i s"

fun run :: "network \<Rightarrow> string \<Rightarrow> event list \<Rightarrow> scanner \<Rightarrow> scanner option" where
  "run net ip [] s = Some s"
| "run net ip (e # es) s =
     (case step net ip e s of None \<Rightarrow> None | Some s' \<Rightarrow> run net ip es s')"

definition scan ::
  "network \<Rightarrow> nat \<Rightarrow> nat \<Rightarrow> event list \<Rightarrow> string \<Rightarrow> int \<Rightarrow> int \<Rightarrow> port_info list option" where
  "scan net num_threads unfinished schedule ip start_port end_port =
     (case run net ip schedule (start_scan num_threads unfinished start_port end_port) of
        None \<Rightarrow> None
      | Some s \<Rightarrow> if pc s = Returned then Some (open_ports s) else None)"

text \<open>
  The schedule in which the main thread fills the queue, the first worker then handles
  every port, and after the sentinels every worker takes one and exits.
\<close>

definition sequential_schedule :: "nat \<Rightarrow> nat \<Rightarrow> event list" where
  "sequential_schedule num_threads k =
     replicate k Main @ [Main]
     @ concat (replicate k [Worker 0, Worker 0, Worker 0]) @ [Main]
     @ replicate num_threads Main @ [Main]
     @ map Worker [0..<num_threads] @ [Main]"

section \<open>Vocabulary of the specification\<close>

text \<open>
  The specification speaks of three risk tiers with the weights HIGH=30, MEDIUM=15 and LOW=5.
  These two definitions follow its words; the code has the same numbers in \<open>RISK_LEVELS\<close>.
\<close>

definition valid_tier :: "string \<Rightarrow> bool" where
  "valid_tier t = (t = ''HIGH'' \<or> t = ''MEDIUM'' \<or> t = ''LOW'')"

definition tier_weight :: "string \<Rightarrow> int" where
  "tier_weight t =
     (if t = ''HIGH'' then 30 else if t = ''MEDIUM'' then 15 else if t = ''LOW'' then 5 else 0)"

text \<open>
  What the specification asks of the assessment of one port record: port and service
  unchanged, and the three classification fields those of the service's profile.
\<close>

definition assessed :: "port_info \<Rightarrow> risk_result \<Rightarrow> bool" where
  "assessed p r =
     (port r = port p \<and> service r = service p \<and> valid_tier (risk_level r) \<and>
      get_risk_profile (service p) =
        Inr \<lparr>risk = risk_level r, profile_reason = reason r, profile_mitigation = mitigation r\<rparr>)"

text \<open>
  The narrative rules in the specification's words: the assessments of one tier,
  a rule that fires when the tier has a service of its group and then contributes one
  narrative, the HIGH rules and the MEDIUM rules in their order, the entry for the LOW
  tier, and the overall summary chosen by precedence.
\<close>

definition tier :: "string \<Rightarrow> risk_result list \<Rightarrow> risk_result list" where
  "tier t rs = filter (\<lambda>r. risk_level r = t) rs"

definition fire :: "string list \<Rightarrow> string \<Rightarrow> risk_result list \<Rightarrow> string list" where
  "fire grp narrative ports = (if any_service_in grp ports then [narrative] else [])"

definition high_narratives :: "risk_result list \<Rightarrow> string list" where
  "high_narratives hs =
     fire [''RDP'', ''SSH'', ''Telnet''] (remote_access_text (services_listing hs)) hs
     @ fire [''SMB'', ''FTP''] (lateral_movement_text (services_listing hs)) hs
     @ fire [''MySQL'', ''PostgreSQL''] (database_text (services_listing hs)) hs
     @ fire [''Telnet''] telnet_text hs
     @ fire [''VNC''] vnc_text hs"

definition medium_narratives :: "risk_result list \<Rightarrow> string list" where
  "medium_narratives ms =
     fire [''HTTP'', ''HTTP-Proxy'', ''HTTPS-Alt''] (web_text (services_listing ms)) ms
     @ fire [''SMTP'', ''POP3'', ''IMAP''] (email_text (services_listing ms)) ms
     @ fire [''DNS''] dns_text ms"

definition low_narrative :: "risk_result list \<Rightarrow> string list" where
  "low_narrative ls = (if ls \<noteq> [] then [vigilance_text (services_listing ls)] else [])"

definition overall_summary :: "risk_result list \<Rightarrow> risk_result list \<Rightarrow> string" where
  "overall_summary hs ms =
     (if hs \<noteq> [] then critical_summary_text (len hs)
      else if ms \<noteq> [] then moderate_summary_text (len ms)
      else minimal_summary_text)"

text \<open>
  The assessments whose service belongs to a rule's group, and the number of conditions
  that hold in a list of firing conditions.
\<close>

definition matching :: "string list \<Rightarrow> risk_result list \<Rightarrow> risk_result list" where
  "matching grp rs = filter (\<lambda>r. service r \<in> set grp) rs"

definition fired :: "bool list \<Rightarrow> nat" where
  "fired cs = length (filter (\<lambda>c. c) cs)"

text \<open>
  The number that a string of decimal digits denotes. A narrative or an action names a
  count when the digits it shows denote that count.
\<close>

definition digit_value :: "char \<Rightarrow> nat" where
  "digit_value c = of_char c - 48"

definition decimal_nat :: "string \<Rightarrow> nat" where
  "decimal_nat s = foldl (\<lambda>a c. 10 * a + digit_value c) 0 s"

text \<open>
  The open ports of the requested range in ascending order, each with its service name:
  what the specification expects a scan to return.
\<close>

definition open_in_range :: "network \<Rightarrow> string \<Rightarrow> int \<Rightarrow> int \<Rightarrow> port_info list" where
  "open_in_range net ip start_port end_port =
     map (\<lambda>p. \<lparr>port = p, service = get_service_name net p\<rparr>)
         (filter (scan_port net ip) [start_port..end_port])"

section \<open>Invariants of a scan\<close>

text \<open>
  The ports still to be handled are those the main thread has not put yet, those in the
  queue and those a worker is scanning. Among them and the ports already in \<open>open_ports\<close>
  every open port of the range occurs exactly once; every entry has the service name of its
  port; until \<open>queue.join()\<close> returns, the count of unfinished tasks is the count \<open>u\<close> the
  scan started with plus the number of queued ports, scanned ports and pending \<open>task_done\<close>
  calls; \<open>queue.join()\<close> returns only when all of these are zero; after the return of the
  scan the list is sorted and every worker has exited.
\<close>

fun remaining :: "main_pc \<Rightarrow> int list" where
  "remaining (Putting ps) = ps"
| "remaining _ = []"

fun feeding :: "main_pc \<Rightarrow> bool" where
  "feeding (Putting ps) = True"
| "feeding Joining = True"
| "feeding _ = False"

fun queued_ports :: "int option list \<Rightarrow> int list" where
  "queued_ports [] = []"
| "queued_ports (None # q) = queued_ports q"
| "queued_ports (Some p # q) = p # queued_ports q"

fun scanning_of :: "worker \<Rightarrow> int multiset" where
  "scanning_of (Scanning p) = {#p#}"
| "scanning_of _ = {#}"

fun finishing :: "worker \<Rightarrow> nat" where
  "finishing Finishing = 1"
| "finishing _ = 0"

definition in_flight :: "worker list \<Rightarrow> int multiset" where
  "in_flight ws = sum_list (map scanning_of ws)"

definition pending :: "scanner \<Rightarrow> int multiset" where
  "pending s = mset (remaining (pc s)) + mset (queued_ports (queue s)) + in_flight (workers s)"

definition ports_inv :: "network \<Rightarrow> string \<Rightarrow> int \<Rightarrow> int \<Rightarrow> scanner \<Rightarrow> bool" where
  "ports_inv net ip a b s =
     (filter_mset (scan_port net ip) (pending s) + mset (map port (open_ports s))
        = filter_mset (scan_port net ip) (mset [a..b]))"

definition names_inv :: "network \<Rightarrow> scanner \<Rightarrow> bool" where
  "names_inv net s = list_all (\<lambda>r. service r = get_service_name net (port r)) (open_ports s)"

definition tasks_inv :: "nat \<Rightarrow> scanner \<Rightarrow> bool" where
  "tasks_inv u s =
     (if feeding (pc s)
      then unfinished_tasks s
             = u + length (queued_ports (queue s)) + size (in_flight (workers s))
               + sum_list (map finishing (workers s))
      else u = 0 \<and> queued_ports (queue s) = [] \<and> in_flight (workers s) = {#}
           \<and> sum_list (map finishing (workers s)) = 0)"

definition returned_inv :: "scanner \<Rightarrow> bool" where
  "returned_inv s =
     (pc s = Returned \<longrightarrow>
        sorted (map port (open_ports s)) \<and> list_all (\<lambda>w. w = Exited) (workers s))"

definition scan_inv :: "network \<Rightarrow> string \<Rightarrow> int \<Rightarrow> int \<Rightarrow> nat \<Rightarrow> scanner \<Rightarrow> bool" where
  "scan_inv net ip a b u s =
     (ports_inv net ip a b s \<and> names_inv net s \<and> tasks_inv u s \<and> returned_inv s)"

section \<open>Sample data\<close>

text \<open>The end-to-end scenario of the specification: five open ports and their assessments.\<close>

definition scenario_ports :: "port_info list" where
  "scenario_ports =
     [\<lparr>port = 22, service = ''SSH''\<rparr>, \<lparr>port = 23, service = ''Telnet''\<rparr>,
      \<lparr>port = 80, service = ''HTTP''\<rparr>, \<lparr>port = 443, service = ''HTTPS''\<rparr>,
      \<lparr>port = 3389, service = ''RDP''\<rparr>]"

definition scenario_results :: "risk_result list" where
  "scenario_results =
     [\<lparr>port = 22, service = ''SSH'', risk_level = ''LOW'', risk_color = ''#28a745'',
       reason = ''Secure but requires proper configuration'',
       mitigation = ''Disable password auth. Use key-based authentication. Change default port.''\<rparr>,
      \<lparr>port = 23, service = ''Telnet'', risk_level = ''HIGH'', risk_color = ''#dc3545'',
       reason = ''Unencrypted protocol transmitting credentials in plaintext'',
       mitigation = ''Replace with SSH. Disable Telnet service immediately.''\<rparr>,
      \<lparr>port = 80, service = ''HTTP'', risk_level = ''MEDIUM'', risk_color = ''#ffc107'',
       reason = ''Unencrypted web traffic vulnerable to interception'',
       mitigation = ''Implement HTTPS with valid SSL/TLS certificates. Redirect HTTP to HTTPS.''\<rparr>,
      \<lparr>port = 443, service = ''HTTPS'', risk_level = ''LOW'', risk_color = ''#28a745'',
       reason = ''Encrypted web service (validate certificate and configuration)'',
       mitigation = ''Keep SSL/TLS updated. Use strong ciphers. Monitor certificate expiration.''\<rparr>,
      \<lparr>port = 3389, service = ''RDP'', risk_level = ''HIGH'', risk_color = ''#dc3545'',
       reason = ''Common target for brute-force attacks and exploitation'',
       mitigation = ''Use VPN for access. Enable Network Level Authentication. Implement MFA.''\<rparr>]"

text \<open>Two HIGH-tier assessments, of which only Telnet is a remote-access service.\<close>

definition telnet_mysql_results :: "risk_result list" where
  "telnet_mysql_results =
     [\<lparr>port = 23, service = ''Telnet'', risk_level = ''HIGH'', risk_color = ''#dc3545'',
       reason = ''Unencrypted protocol transmitting credentials in plaintext'',
       mitigation = ''Replace with SSH. Disable Telnet service immediately.''\<rparr>,
      \<lparr>port = 3306, service = ''MySQL'', risk_level = ''HIGH'', risk_color = ''#dc3545'',
       reason = ''Database exposed to internet increases attack surface'',
       mitigation = ''Bind to localhost only. Use firewall rules. Implement strong passwords.''\<rparr>]"

text \<open>
  Eight open ports on which every narrative rule fires, with their assessments, and a
  single LOW-tier assessment.
\<close>

definition all_rules_ports :: "port_info list" where
  "all_rules_ports =
     [\<lparr>port = 21, service = ''FTP''\<rparr>,
      \<lparr>port = 23, service = ''Telnet''\<rparr>,
      \<lparr>port = 25, service = ''SMTP''\<rparr>,
      \<lparr>port = 53, service = ''DNS''\<rparr>,
      \<lparr>port = 80, service = ''HTTP''\<rparr>,
      \<lparr>port = 443, service = ''HTTPS''\<rparr>,
      \<lparr>port = 3306, service = ''MySQL''\<rparr>,
      \<lparr>port = 5900, service = ''VNC''\<rparr>]"

definition all_rules_results :: "risk_result list" where
  "all_rules_results =
     [\<lparr>port = 21, service = ''FTP'', risk_level = ''HIGH'', risk_color = ''#dc3545'',
       reason = ''Unencrypted file transfer with plaintext authentication'',
       mitigation = ''Use SFTP or FTPS. Configure with strong authentication.''\<rparr>,
      \<lparr>port = 23, service = ''Telnet'', risk_level = ''HIGH'', risk_color = ''#dc3545'',
       reason = ''Unencrypted protocol transmitting credentials in plaintext'',
       mitigation = ''Replace with SSH. Disable Telnet service immediately.''\<rparr>,
      \<lparr>port = 25, service = ''SMTP'', risk_level = ''MEDIUM'', risk_color = ''#ffc107'',
       reason = ''Mail server can be abused for spam or relay attacks'',
       mitigation = ''Configure SPF, DKIM, DMARC. Disable open relay. Use authentication.''\<rparr>,
      \<lparr>port = 53, service = ''DNS'', risk_level = ''MEDIUM'', risk_color = ''#ffc107'',
       reason = ''DNS server may be vulnerable to amplification attacks'',
       mitigation = ''Restrict recursive queries. Implement rate limiting. Use DNSSEC.''\<rparr>,
      \<lparr>port = 80, service = ''HTTP'', risk_level = ''MEDIUM'', risk_color = ''#ffc107'',
       reason = ''Unencrypted web traffic vulnerable to interception'',
       mitigation = ''Implement HTTPS with valid SSL/TLS certificates. Redirect HTTP to HTTPS.''\<rparr>,
      \<lparr>port = 443, service = ''HTTPS'', risk_level = ''LOW'', risk_color = ''#28a745'',
       reason = ''Encrypted web service (validate certificate and configuration)'',
       mitigation = ''Keep SSL/TLS updated. Use strong ciphers. Monitor certificate expiration.''\<rparr>,
      \<lparr>port = 3306, service = ''MySQL'', risk_level = ''HIGH'', risk_color = ''#dc3545'',
       reason = ''Database exposed to internet increases attack surface'',
       mitigation = ''Bind to localhost only. Use firewall rules. Implement strong passwords.''\<rparr>,
      \<lparr>port = 5900, service = ''VNC'', risk_level = ''HIGH'', risk_color = ''#dc3545'',
       reason = ''Often configured with weak passwords or no encryption'',
       mitigation = ''Use SSH tunneling. Implement strong authentication. Consider alternatives.''\<rparr>]"

definition low_only_results :: "risk_result list" where
  "low_only_results =
     [\<lparr>port = 443, service = ''HTTPS'', risk_level = ''LOW'', risk_color = ''#28a745'',
       reason = ''Encrypted web service (validate certificate and configuration)'',
       mitigation = ''Keep SSL/TLS updated. Use strong ciphers. Monitor certificate expiration.''\<rparr>]"

text \<open>
  A network on which ports 21 and 23 accept connections, and a schedule of two workers in
  which the second worker reports port 23 before the first reports port 21.
\<close>

definition sample_net :: network where
  "sample_net = \<lparr>connect_ex = (\<lambda>ip p. if p = 21 \<or> p = 23 then Inr 0 else Inr 111),
                 getservbyport = (\<lambda>p. None)\<rparr>"

definition sample_schedule :: "event list" where
  "sample_schedule =
     [Main, Main, Main, Main,
      Worker 0, Worker 1, Worker 1, Worker 1, Worker 1, Worker 1, Worker 0, Worker 1, Worker 0,
      Main, Main, Main, Main, Worker 1, Worker 0, Main]"

text \<open>A network on which the target cannot be resolved: every attempt raises \<open>socket.gaierror\<close>.\<close>

definition unresolvable_net :: network where
  "unresolvable_net = \<lparr>connect_ex = (\<lambda>ip p. Inl Gaierror), getservbyport = (\<lambda>p. None)\<rparr>"

section \<open>Properties of the risk engine\<close>

subsection \<open>Classification\<close>

lemma subscript_Unknown:
  "subscript SERVICE_RISKS ''Unknown'' =
     Inr \<lparr>risk = ''MEDIUM'',
          profile_reason = ''Unidentified service requires investigation'',
          profile_mitigation = ''Investigate service identity. Close if unnecessary. Ensure proper security.''\<rparr>"
  by (simp add: subscript_def SERVICE_RISKS_def)

lemma get_risk_profile_eq:
  "get_risk_profile svc =
     Inr (dict_get SERVICE_RISKS svc
       \<lparr>risk = ''MEDIUM'',
        profile_reason = ''Unidentified service requires investigation'',
        profile_mitigation = ''Investigate service identity. Close if unnecessary. Ensure proper security.''\<rparr>)"
  by (simp add: get_risk_profile_def subscript_Unknown)

lemma risk_dict_get_valid:
  "valid_tier (risk d) \<Longrightarrow> valid_tier (risk (dict_get SERVICE_RISKS svc d))"
  by (simp add: dict_get_def SERVICE_RISKS_def valid_tier_def)

lemma dict_get_unmapped:
  "svc \<notin> set [''Telnet'', ''FTP'', ''SMB'', ''RDP'', ''VNC'', ''MySQL'', ''PostgreSQL'',
                 ''HTTP'', ''HTTP-Proxy'', ''HTTPS-Alt'', ''SMTP'', ''POP3'', ''IMAP'', ''DNS'',
                 ''HTTPS'', ''SSH'', ''FTP-DATA''] \<Longrightarrow>
   dict_get SERVICE_RISKS svc d = (if svc = ''Unknown'' then
       \<lparr>risk = ''MEDIUM'',
        profile_reason = ''Unidentified service requires investigation'',
        profile_mitigation = ''Investigate service identity. Close if unnecessary. Ensure proper security.''\<rparr>
     else d)"
  by (simp add: dict_get_def SERVICE_RISKS_def)

lemma get_risk_profile_valid:
  "\<exists>prof. get_risk_profile svc = Inr prof \<and> valid_tier (risk prof)"
  using risk_dict_get_valid [of "\<lparr>risk = ''MEDIUM'',
          profile_reason = ''Unidentified service requires investigation'',
          profile_mitigation = ''Investigate service identity. Close if unnecessary. Ensure proper security.''\<rparr>" svc]
  by (simp add: get_risk_profile_eq valid_tier_def)

text \<open>
  Claim C4. \<open>get_risk_profile\<close> never raises: for every service name it returns a profile, the
  profile's risk level is HIGH, MEDIUM or LOW, and a name outside the seventeen classified
  services (the literal \<open>Unknown\<close> among them) gets the default profile, MEDIUM with the
  "requires investigation" reason.
\<close>

theorem get_risk_profile_total:
  "\<exists>p. get_risk_profile svc = Inr p \<and>
       risk p \<in> {''HIGH'', ''MEDIUM'', ''LOW''} \<and>
       (svc \<notin> set [''Telnet'', ''FTP'', ''SMB'', ''RDP'', ''VNC'', ''MySQL'', ''PostgreSQL'',
                     ''HTTP'', ''HTTP-Proxy'', ''HTTPS-Alt'', ''SMTP'', ''POP3'', ''IMAP'', ''DNS'',
                     ''HTTPS'', ''SSH'', ''FTP-DATA''] \<longrightarrow>
        p = \<lparr>risk = ''MEDIUM'',
             profile_reason = ''Unidentified service requires investigation'',
             profile_mitigation = ''Investigate service identity. Close if unnecessary. Ensure proper security.''\<rparr>)"
proof -
  obtain p where p: "get_risk_profile svc = Inr p" "valid_tier (risk p)"
    using get_risk_profile_valid by blast
  have "risk p \<in> {''HIGH'', ''MEDIUM'', ''LOW''}"
    using p(2) by (auto simp: valid_tier_def)
  moreover have "svc \<notin> set [''Telnet'', ''FTP'', ''SMB'', ''RDP'', ''VNC'', ''MySQL'', ''PostgreSQL'',
                     ''HTTP'', ''HTTP-Proxy'', ''HTTPS-Alt'', ''SMTP'', ''POP3'', ''IMAP'', ''DNS'',
                     ''HTTPS'', ''SSH'', ''FTP-DATA''] \<longrightarrow>
        p = \<lparr>risk = ''MEDIUM'',
             profile_reason = ''Unidentified service requires investigation'',
             profile_mitigation = ''Investigate service identity. Close if unnecessary. Ensure proper security.''\<rparr>"
    using p(1) dict_get_unmapped [of svc] by (auto simp: get_risk_profile_eq)
  ultimately show ?thesis using p(1) by blast
qed

theorem get_risk_profile_total_witness:
  "''REDIS'' \<notin> set [''Telnet'', ''FTP'', ''SMB'', ''RDP'', ''VNC'', ''MySQL'', ''PostgreSQL'',
                     ''HTTP'', ''HTTP-Proxy'', ''HTTPS-Alt'', ''SMTP'', ''POP3'', ''IMAP'', ''DNS'',
                     ''HTTPS'', ''SSH'', ''FTP-DATA''] \<and>
   get_risk_profile ''REDIS'' =
     Inr \<lparr>risk = ''MEDIUM'',
          profile_reason = ''Unidentified service requires investigation'',
          profile_mitigation = ''Investigate service identity. Close if unnecessary. Ensure proper security.''\<rparr> \<and>
   get_risk_profile ''Unknown'' =
     Inr \<lparr>risk = ''MEDIUM'',
          profile_reason = ''Unidentified service requires investigation'',
          profile_mitigation = ''Investigate service identity. Close if unnecessary. Ensure proper security.''\<rparr>"
  using get_risk_profile_total [of "''REDIS''"] get_risk_profile_total [of "''Unknown''"]
  by auto

subsection \<open>Rating\<close>

text \<open>
  Claim C2. The rating is defined for every integer score, and each rating applies on
  exactly its bucket: EXCELLENT from 90, GOOD on 70..89, FAIR on 50..69, POOR on 30..49,
  CRITICAL below 30; the buckets are disjoint and cover every score, so exactly one of
  the five ratings applies. The eight boundary scores map as the specification lists them.
\<close>

theorem get_security_rating_buckets:
  "(rating (get_security_rating s) = ''EXCELLENT'') = (90 \<le> s) \<and>
   (rating (get_security_rating s) = ''GOOD'') = (70 \<le> s \<and> s \<le> 89) \<and>
   (rating (get_security_rating s) = ''FAIR'') = (50 \<le> s \<and> s \<le> 69) \<and>
   (rating (get_security_rating s) = ''POOR'') = (30 \<le> s \<and> s \<le> 49) \<and>
   (rating (get_security_rating s) = ''CRITICAL'') = (s < 30) \<and>
   rating (get_security_rating s) \<in> {''EXCELLENT'', ''GOOD'', ''FAIR'', ''POOR'', ''CRITICAL''} \<and>
   rating (get_security_rating 90) = ''EXCELLENT'' \<and>
   rating (get_security_rating 89) = ''GOOD'' \<and>
   rating (get_security_rating 70) = ''GOOD'' \<and>
   rating (get_security_rating 69) = ''FAIR'' \<and>
   rating (get_security_rating 50) = ''FAIR'' \<and>
   rating (get_security_rating 49) = ''POOR'' \<and>
   rating (get_security_rating 30) = ''POOR'' \<and>
   rating (get_security_rating 29) = ''CRITICAL''"
  by (simp add: get_security_rating_def)

subsection \<open>Score\<close>

lemma subscript_RISK_LEVELS:
  "valid_tier t \<Longrightarrow> \<exists>lvl. subscript RISK_LEVELS t = Inr lvl \<and> score lvl = tier_weight t"
  by (auto simp: valid_tier_def subscript_def RISK_LEVELS_def tier_weight_def)

lemma total_risk_loop_sum:
  "list_all (\<lambda>r. valid_tier (risk_level r)) rs \<Longrightarrow>
   total_risk_loop acc rs = Inr (acc + sum_list (map (\<lambda>r. tier_weight (risk_level r)) rs))"
proof (induction rs arbitrary: acc)
  case Nil
  then show ?case by simp
next
  case (Cons r rs)
  from Cons.prems have "valid_tier (risk_level r)" by simp
  then obtain lvl where l: "subscript RISK_LEVELS (risk_level r) = Inr lvl"
      "score lvl = tier_weight (risk_level r)"
    using subscript_RISK_LEVELS by blast
  from Cons.prems have "list_all (\<lambda>r. valid_tier (risk_level r)) rs" by simp
  from Cons.IH [OF this] l show ?case by (simp add: add.assoc)
qed

lemma tier_weight_nonneg: "0 \<le> tier_weight t"
  by (simp add: tier_weight_def)

lemma total_weight_nonneg: "0 \<le> sum_list (map (\<lambda>r. tier_weight (risk_level r)) rs)"
  by (induction rs) (simp_all add: tier_weight_nonneg)

lemma score_formula:
  "list_all (\<lambda>r. valid_tier (risk_level r)) rs \<Longrightarrow>
   calculate_security_score rs =
     Inr (max 0 (100 - sum_list (map (\<lambda>r. tier_weight (risk_level r)) rs)))"
  by (cases "rs = []") (simp_all add: calculate_security_score_def total_risk_loop_sum)

text \<open>
  Claim C1. For every list of assessments (each with a risk level among the three tiers)
  \<open>calculate_security_score\<close> returns a score: 100 for the empty list, and in every case
  \<open>max(0, 100 - total_risk)\<close> where \<open>total_risk\<close> sums the weights 30, 15 and 5 of the tiers;
  the score lies between 0 and 100.
\<close>

theorem calculate_security_score_formula:
  assumes "list_all (\<lambda>r. valid_tier (risk_level r)) rs"
  shows "\<exists>s. calculate_security_score rs = Inr s \<and>
             (rs = [] \<longrightarrow> s = 100) \<and>
             s = max 0 (100 - sum_list (map (\<lambda>r. tier_weight (risk_level r)) rs)) \<and>
             0 \<le> s \<and> s \<le> 100"
  using total_weight_nonneg [of rs] by (auto simp: score_formula [OF assms])

theorem calculate_security_score_formula_witness:
  "list_all (\<lambda>r. valid_tier (risk_level r)) scenario_results \<and>
   calculate_security_score scenario_results = Inr 15 \<and>
   list_all (\<lambda>r. valid_tier (risk_level r)) ([] :: risk_result list) \<and>
   calculate_security_score [] = Inr 100"
proof -
  have h: "list_all (\<lambda>r. valid_tier (risk_level r)) scenario_results"
    by (simp add: scenario_results_def valid_tier_def)
  have e: "list_all (\<lambda>r. valid_tier (risk_level r)) ([] :: risk_result list)"
    by simp
  from calculate_security_score_formula [OF h] calculate_security_score_formula [OF e] h
  show ?thesis
    by (auto simp: scenario_results_def tier_weight_def)
qed

text \<open>
  Claim C6. Adding one assessment at the end of a list never raises the score:
  \<open>Score(L ++ [a]) \<le> Score(L)\<close>, both scores being returned.
\<close>

theorem calculate_security_score_monotone:
  assumes "list_all (\<lambda>r. valid_tier (risk_level r)) rs" and "valid_tier (risk_level a)"
  shows "\<exists>s s'. calculate_security_score rs = Inr s \<and>
                calculate_security_score (rs @ [a]) = Inr s' \<and> s' \<le> s"
proof -
  from assms have "list_all (\<lambda>r. valid_tier (risk_level r)) (rs @ [a])" by simp
  from score_formula [OF this] score_formula [OF assms(1)] tier_weight_nonneg [of "risk_level a"]
  show ?thesis by auto
qed

theorem calculate_security_score_monotone_witness:
  "list_all (\<lambda>r. valid_tier (risk_level r)) (butlast scenario_results) \<and>
   valid_tier (risk_level (last scenario_results)) \<and>
   calculate_security_score (butlast scenario_results) = Inr 45 \<and>
   calculate_security_score (butlast scenario_results @ [last scenario_results]) = Inr 15"
proof -
  have h: "list_all (\<lambda>r. valid_tier (risk_level r)) (butlast scenario_results)"
    by (simp add: scenario_results_def valid_tier_def)
  have a: "valid_tier (risk_level (last scenario_results))"
    by (simp add: scenario_results_def valid_tier_def)
  have "calculate_security_score (butlast scenario_results) = Inr 45"
    by (simp add: scenario_results_def calculate_security_score_def subscript_def RISK_LEVELS_def)
  moreover have "calculate_security_score (butlast scenario_results @ [last scenario_results]) = Inr 15"
    by (simp add: scenario_results_def calculate_security_score_def subscript_def RISK_LEVELS_def)
  ultimately show ?thesis
    using calculate_security_score_monotone [OF h a] h a by simp
qed

subsection \<open>Decimal numerals\<close>

lemma digit_value_digit_char: "d < 10 \<Longrightarrow> digit_value (digit_char d) = d"
proof -
  assume "d < 10"
  then have "d \<in> {0, 1, 2, 3, 4, 5, 6, 7, 8, 9}" by auto
  then show ?thesis by (auto simp: digit_value_def digit_char_def)
qed

lemma decimal_nat_str_nat: "decimal_nat (str_nat n) = n"
proof (induction n rule: str_nat.induct)
  case (1 n)
  show ?case
  proof (cases "n < 10")
    case True
    then show ?thesis
      by (subst str_nat.simps) (simp add: decimal_nat_def digit_value_digit_char)
  next
    case False
    with "1" have ih: "decimal_nat (str_nat (n div 10)) = n div 10" by simp
    have "decimal_nat (str_nat n) = 10 * decimal_nat (str_nat (n div 10)) + digit_value (digit_char (n mod 10))"
      using False by (subst str_nat.simps) (simp add: decimal_nat_def)
    with ih show ?thesis by (simp add: digit_value_digit_char)
  qed
qed

lemma decimal_nat_str_int: "decimal_nat (str_int (int k)) = k"
  by (simp add: str_int_def decimal_nat_str_nat)

lemma str_int_samples:
  "str_int 1 = ''1''" "str_int 2 = ''2''" "str_int 3 = ''3''" "str_int 4 = ''4''"
  "str_int 21 = ''21''" "str_int 22 = ''22''" "str_int 23 = ''23''" "str_int 25 = ''25''"
  "str_int 53 = ''53''" "str_int 80 = ''80''" "str_int 443 = ''443''"
  "str_int 3306 = ''3306''" "str_int 3389 = ''3389''" "str_int 5900 = ''5900''"
  by (simp_all add: str_int_def str_nat.simps digit_char_def)

subsection \<open>Executive summary\<close>

text \<open>
  Claim C9. For every list of assessments and every score, \<open>priority_actions\<close> is: the entry
  naming the HIGH count when the number of HIGH assessments is positive, followed by the
  entry naming the MEDIUM count when the number of MEDIUM assessments is positive; and the
  single maintain-posture entry when both numbers are zero. The digits in an entry denote
  the number of assessments of its tier. The list is never empty and has at most two
  entries.
\<close>

theorem priority_actions_shape:
  "(let h = length (filter (\<lambda>r. risk_level r = ''HIGH'') rs);
        m = length (filter (\<lambda>r. risk_level r = ''MEDIUM'') rs)
    in priority_actions (generate_executive_summary rs sc) =
         (if h = 0 \<and> m = 0 then [''Continue monitoring and maintain security posture'']
          else (if 0 < h then [''Address '' @ str_int (int h) @ '' HIGH risk service(s) immediately'']
                else [])
             @ (if 0 < m then [''Review '' @ str_int (int m) @ '' MEDIUM risk service(s)''] else []))
       \<and> decimal_nat (str_int (int h)) = h
       \<and> decimal_nat (str_int (int m)) = m)
   \<and> priority_actions (generate_executive_summary rs sc) \<noteq> []
   \<and> length (priority_actions (generate_executive_summary rs sc)) \<le> 2"
proof -
  have c: "count_if p rs = int (length (filter p rs))" for p
    by (induction rs) (simp_all add: count_if_def)
  show ?thesis
    by (auto simp: generate_executive_summary_def Let_def c decimal_nat_str_int)
qed

theorem priority_actions_shape_witness:
  "priority_actions (generate_executive_summary scenario_results 15)
     = [''Address 2 HIGH risk service(s) immediately'', ''Review 1 MEDIUM risk service(s)''] \<and>
   priority_actions (generate_executive_summary low_only_results 95)
     = [''Continue monitoring and maintain security posture''] \<and>
   priority_actions (generate_executive_summary all_rules_results 0)
     = [''Address 4 HIGH risk service(s) immediately'', ''Review 3 MEDIUM risk service(s)'']"
proof -
  have evaluated: ?thesis
    by (simp add: generate_executive_summary_def Let_def count_if_def scenario_results_def
        low_only_results_def all_rules_results_def str_int_def str_nat.simps digit_char_def)
  from priority_actions_shape [of scenario_results 15] priority_actions_shape [of low_only_results 95]
    priority_actions_shape [of all_rules_results 0]
  show ?thesis
    by (simp add: Let_def scenario_results_def low_only_results_def all_rules_results_def
        str_int_samples)
qed

subsection \<open>Assessment\<close>

lemma assess_one_ok: "\<exists>r. assess_one p = Inr r \<and> assessed p r"
proof -
  obtain prof where p: "get_risk_profile (service p) = Inr prof" "valid_tier (risk prof)"
    using get_risk_profile_valid by blast
  then obtain lvl where "subscript RISK_LEVELS (risk prof) = Inr lvl"
    using subscript_RISK_LEVELS by blast
  with p show ?thesis by (simp add: assess_one_def assessed_def)
qed

lemma assess_loop_ok:
  "\<exists>rs. assess_loop acc ps = Inr (acc @ rs) \<and> list_all2 assessed ps rs"
proof (induction ps arbitrary: acc)
  case Nil
  then show ?case by simp
next
  case (Cons p ps)
  obtain r where r: "assess_one p = Inr r" "assessed p r"
    using assess_one_ok [of p] by blast
  obtain rs where "assess_loop (acc @ [r]) ps = Inr ((acc @ [r]) @ rs)" "list_all2 assessed ps rs"
    using Cons.IH by blast
  with r have "assess_loop acc (p # ps) = Inr (acc @ r # rs) \<and> list_all2 assessed (p # ps) (r # rs)"
    by simp
  then show ?case by blast
qed

lemma tier_counts_sum:
  "list_all (\<lambda>r. valid_tier (risk_level r)) rs \<Longrightarrow>
   count_if (\<lambda>r. risk_level r = ''HIGH'') rs + count_if (\<lambda>r. risk_level r = ''MEDIUM'') rs
     + count_if (\<lambda>r. risk_level r = ''LOW'') rs = len rs"
  by (induction rs) (auto simp: count_if_def len_def valid_tier_def)

lemma assessed_valid:
  "list_all2 assessed ps rs \<Longrightarrow> list_all (\<lambda>r. valid_tier (risk_level r)) rs"
  by (induction rule: list_all2_induct) (simp_all add: assessed_def)

lemma assess_risks_valid:
  "assess_risks ps = Inr rs \<Longrightarrow> list_all (\<lambda>r. valid_tier (risk_level r)) rs"
  using assess_loop_ok [of "[]" ps] assessed_valid by (auto simp: assess_risks_def)

lemma assess_scenario: "assess_risks scenario_ports = Inr scenario_results"
  by (simp add: scenario_ports_def scenario_results_def assess_risks_def assess_one_def
      get_risk_profile_def subscript_def dict_get_def SERVICE_RISKS_def RISK_LEVELS_def)

lemma assess_all_rules: "assess_risks all_rules_ports = Inr all_rules_results"
  by (simp add: all_rules_ports_def all_rules_results_def assess_risks_def assess_one_def
      get_risk_profile_def subscript_def dict_get_def SERVICE_RISKS_def RISK_LEVELS_def)

text \<open>
  Claim C10. For every list of port records \<open>assess_risks\<close> returns a list of the same length
  and order: the i-th result has the i-th record's port and service, and its risk level,
  reason and mitigation are those of the profile of that service. In the executive summary
  of the result the HIGH, MEDIUM and LOW counts add up to \<open>total_open_ports\<close>.
\<close>

theorem assess_risks_preserves:
  "\<exists>rs. assess_risks ps = Inr rs \<and> length rs = length ps \<and>
        (\<forall>i < length ps.
           port (rs ! i) = port (ps ! i) \<and> service (rs ! i) = service (ps ! i) \<and>
           get_risk_profile (service (ps ! i)) =
             Inr \<lparr>risk = risk_level (rs ! i), profile_reason = reason (rs ! i),
                  profile_mitigation = mitigation (rs ! i)\<rparr>) \<and>
        high_risk_count (generate_executive_summary rs sc)
          + medium_risk_count (generate_executive_summary rs sc)
          + low_risk_count (generate_executive_summary rs sc)
          = total_open_ports (generate_executive_summary rs sc)"
proof -
  obtain rs where rs: "assess_risks ps = Inr rs" "list_all2 assessed ps rs"
    using assess_loop_ok [of "[]" ps] by (auto simp: assess_risks_def)
  have len: "length rs = length ps"
    using rs(2) by (simp add: list_all2_lengthD)
  have nth: "\<forall>i < length ps. assessed (ps ! i) (rs ! i)"
    using rs(2) by (simp add: list_all2_nthD)
  have cnt: "high_risk_count (generate_executive_summary rs sc)
          + medium_risk_count (generate_executive_summary rs sc)
          + low_risk_count (generate_executive_summary rs sc)
          = total_open_ports (generate_executive_summary rs sc)"
    using tier_counts_sum [OF assessed_valid [OF rs(2)]]
    by (simp add: generate_executive_summary_def Let_def)
  from rs(1) len nth cnt show ?thesis by (auto simp: assessed_def)
qed

theorem assess_risks_preserves_witness:
  "assess_risks scenario_ports = Inr scenario_results \<and>
   length scenario_results = length scenario_ports \<and>
   (4::nat) < length scenario_ports \<and>
   port (scenario_results ! 4) = port (scenario_ports ! 4) \<and>
   service (scenario_results ! 4) = service (scenario_ports ! 4) \<and>
   total_open_ports (generate_executive_summary scenario_results 15) = 5 \<and>
   high_risk_count (generate_executive_summary scenario_results 15)
     + medium_risk_count (generate_executive_summary scenario_results 15)
     + low_risk_count (generate_executive_summary scenario_results 15) = 5"
proof -
  have e: "assess_risks scenario_ports = Inr scenario_results" by (rule assess_scenario)
  have t: "total_open_ports (generate_executive_summary scenario_results 15) = 5"
    by (simp add: generate_executive_summary_def scenario_results_def len_def Let_def)
  have l: "(4::nat) < length scenario_ports" by (simp add: scenario_ports_def)
  from assess_risks_preserves [of scenario_ports 15] e t l show ?thesis
    by auto
qed

subsection \<open>Attack narratives\<close>

lemma any_service_in_Nil: "any_service_in grp [] = False"
  by (simp add: any_service_in_def)

lemma len_pos: "(len xs > 0) = (xs \<noteq> [])"
  by (simp add: len_def)

lemma high_block:
  "(if hs \<noteq> [] then
      let high_services = services_listing hs;
          scenarios = (if any_service_in [''RDP'', ''SSH'', ''Telnet''] hs
                       then acc @ [remote_access_text high_services] else acc);
          scenarios = (if any_service_in [''SMB'', ''FTP''] hs
                       then scenarios @ [lateral_movement_text high_services] else scenarios);
          scenarios = (if any_service_in [''MySQL'', ''PostgreSQL''] hs
                       then scenarios @ [database_text high_services] else scenarios);
          scenarios = (if any_service_in [''Telnet''] hs
                       then scenarios @ [telnet_text] else scenarios);
          scenarios = (if any_service_in [''VNC''] hs
                       then scenarios @ [vnc_text] else scenarios)
      in scenarios
    else acc) = acc @ high_narratives hs"
proof (cases "hs = []")
  case True
  then show ?thesis by (simp add: high_narratives_def fire_def any_service_in_Nil)
next
  case False
  then show ?thesis by (simp add: high_narratives_def fire_def Let_def)
qed

lemma medium_block:
  "(if ms \<noteq> [] then
      let medium_services = services_listing ms;
          scenarios = (if any_service_in [''HTTP'', ''HTTP-Proxy'', ''HTTPS-Alt''] ms
                       then acc @ [web_text medium_services] else acc);
          scenarios = (if any_service_in [''SMTP'', ''POP3'', ''IMAP''] ms
                       then scenarios @ [email_text medium_services] else scenarios);
          scenarios = (if any_service_in [''DNS''] ms
                       then scenarios @ [dns_text] else scenarios)
      in scenarios
    else acc) = acc @ medium_narratives ms"
proof (cases "ms = []")
  case True
  then show ?thesis by (simp add: medium_narratives_def fire_def any_service_in_Nil)
next
  case False
  then show ?thesis by (simp add: medium_narratives_def fire_def Let_def)
qed

lemma low_block:
  "(if ls \<noteq> [] then let low_services = services_listing ls in acc @ [vigilance_text low_services]
    else acc) = acc @ low_narrative ls"
  by (simp add: low_narrative_def)

lemma summary_block:
  "(if len hs > 0 then acc @ [critical_summary_text (len hs)]
    else if len ms > 0 then acc @ [moderate_summary_text (len ms)]
    else acc @ [minimal_summary_text]) = acc @ [overall_summary hs ms]"
  by (simp add: overall_summary_def len_pos)

lemma simulate_structure:
  "rs \<noteq> [] \<Longrightarrow>
   simulate_attack_scenarios rs =
     high_narratives (tier ''HIGH'' rs) @ medium_narratives (tier ''MEDIUM'' rs)
     @ low_narrative (tier ''LOW'' rs)
     @ [overall_summary (tier ''HIGH'' rs) (tier ''MEDIUM'' rs)]"
  unfolding simulate_attack_scenarios_def high_block medium_block low_block summary_block
  by (simp add: Let_def tier_def)

lemma length_fire: "length (fire grp t ps) = fired [any_service_in grp ps]"
  by (simp add: fire_def fired_def)

lemma services_listing_nonempty: "rs \<noteq> [] \<Longrightarrow> services_listing rs \<noteq> []"
proof (cases rs)
  case Nil
  assume "rs \<noteq> []"
  with Nil show ?thesis by simp
next
  case (Cons r rest)
  then show ?thesis by (cases rest) (simp_all add: services_listing_def)
qed

lemma any_service_in_nonempty: "any_service_in grp ps \<Longrightarrow> ps \<noteq> []"
  by (auto simp: any_service_in_def)

lemma listing_of_fired: "any_service_in grp ps \<Longrightarrow> services_listing ps \<noteq> []"
  using any_service_in_nonempty services_listing_nonempty by blast



text \<open>
  Claim C8, as the code has it. The claim says that a fired rule lists the pairs of the
  services of its own group. The code builds one listing per tier and every listing rule of
  the tier uses it: with Telnet and MySQL open, the remote-access narrative lists
  \<open>Telnet(23), MySQL(3306)\<close>, not the matching \<open>Telnet(23)\<close> alone.
\<close>

theorem simulate_lists_whole_tier_counterexample:
  "hd (simulate_attack_scenarios telnet_mysql_results) = remote_access_text ''Telnet(23), MySQL(3306)'' \<and>
   services_listing (matching [''RDP'', ''SSH'', ''Telnet''] telnet_mysql_results) = ''Telnet(23)'' \<and>
   hd (simulate_attack_scenarios telnet_mysql_results)
     \<noteq> remote_access_text (services_listing (matching [''RDP'', ''SSH'', ''Telnet''] telnet_mysql_results))"
proof -
  have a: "hd (simulate_attack_scenarios telnet_mysql_results) = remote_access_text ''Telnet(23), MySQL(3306)''"
    by (simp add: simulate_attack_scenarios_def telnet_mysql_results_def Let_def any_service_in_def
        services_listing_def str_int_samples)
  have b: "services_listing (matching [''RDP'', ''SSH'', ''Telnet''] telnet_mysql_results) = ''Telnet(23)''"
    by (simp add: matching_def telnet_mysql_results_def services_listing_def str_int_samples)
  have c: "remote_access_text ''Telnet(23), MySQL(3306)'' \<noteq> remote_access_text ''Telnet(23)''"
    by (simp add: remote_access_text_def)
  from a b c show ?thesis by simp
qed

text \<open>
  Claim C8, amended. For every non-empty list of assessments each rule that fires appends
  exactly one string (the narratives are as many as the rules that fire, plus the summary).
  The remote-access, lateral-movement and database narratives list the service(port) pairs
  of all HIGH-tier assessments, the web and email narratives those of all MEDIUM-tier
  assessments, the vigilance narrative those of all LOW-tier assessments, and the listing
  of a fired rule is never empty; the Telnet, VNC and DNS narratives are fixed strings.
  The narratives are written out in the statement.
\<close>

theorem fired_rules_list_tier:
  assumes "rs \<noteq> []"
  shows "(let hs = filter (\<lambda>r. risk_level r = ''HIGH'') rs;
              ms = filter (\<lambda>r. risk_level r = ''MEDIUM'') rs;
              ls = filter (\<lambda>r. risk_level r = ''LOW'') rs;
              listing = (\<lambda>ps. join '', '' (map (\<lambda>r. service r @ ''('' @ str_int (port r) @ '')'') ps))
          in length (simulate_attack_scenarios rs) =
               fired [any_service_in [''RDP'', ''SSH'', ''Telnet''] hs,
                      any_service_in [''SMB'', ''FTP''] hs,
                      any_service_in [''MySQL'', ''PostgreSQL''] hs,
                      any_service_in [''Telnet''] hs,
                      any_service_in [''VNC''] hs,
                      any_service_in [''HTTP'', ''HTTP-Proxy'', ''HTTPS-Alt''] ms,
                      any_service_in [''SMTP'', ''POP3'', ''IMAP''] ms,
                      any_service_in [''DNS''] ms,
                      ls \<noteq> []] + 1
             \<and> (any_service_in [''RDP'', ''SSH'', ''Telnet''] hs \<longrightarrow>
                (''CRITICAL: Remote Access Exploitation - Detected remote access services (''
                   @ listing hs
                   @ ''). Attackers could exploit weak credentials or protocol vulnerabilities to gain ''
                   @ ''initial system access. Implement MFA, use VPN, and enforce strong password policies.'')
                  \<in> set (simulate_attack_scenarios rs)
                \<and> listing hs \<noteq> [])
             \<and> (any_service_in [''SMB'', ''FTP''] hs \<longrightarrow>
                (''CRITICAL: Lateral Movement Vector - Detected file sharing/transfer protocols (''
                   @ listing hs
                   @ ''). Successfully compromised systems could leverage these services to move laterally ''
                   @ ''across the network and exfiltrate sensitive data.'')
                  \<in> set (simulate_attack_scenarios rs)
                \<and> listing hs \<noteq> [])
             \<and> (any_service_in [''MySQL'', ''PostgreSQL''] hs \<longrightarrow>
                (''CRITICAL: Database Compromise - Exposed database services (''
                   @ listing hs
                   @ '') are prime targets. Direct database access bypasses application security controls ''
                   @ ''and could lead to complete data breach. Implement network segmentation immediately.'')
                  \<in> set (simulate_attack_scenarios rs)
                \<and> listing hs \<noteq> [])
             \<and> (any_service_in [''Telnet''] hs \<longrightarrow>
                (''CRITICAL: Credential Interception - Telnet transmits all data including credentials ''
                   @ ''in plaintext. Network-based attackers can intercept login credentials without any ''
                   @ ''special tools. This service must be disabled and replaced with SSH.'')
                  \<in> set (simulate_attack_scenarios rs))
             \<and> (any_service_in [''VNC''] hs \<longrightarrow>
                (''CRITICAL: Remote Desktop Hijacking - VNC services often have weak or default ''
                   @ ''passwords. Attackers can gain interactive desktop access for reconnaissance, data ''
                   @ ''theft, or deploying malware. Enforce encryption and multi-factor authentication.'')
                  \<in> set (simulate_attack_scenarios rs))
             \<and> (any_service_in [''HTTP'', ''HTTP-Proxy'', ''HTTPS-Alt''] ms \<longrightarrow>
                (''HIGH: Web Service Exploitation - Detected web services (''
                   @ listing ms
                   @ ''). These are common attack vectors for credential harvesting, session hijacking, or ''
                   @ ''application exploits. Ensure all web services use HTTPS, apply security patches, ''
                   @ ''and implement Web Application Firewalls.'')
                  \<in> set (simulate_attack_scenarios rs)
                \<and> listing ms \<noteq> [])
             \<and> (any_service_in [''SMTP'', ''POP3'', ''IMAP''] ms \<longrightarrow>
                (''HIGH: Email Service Abuse - Detected email services (''
                   @ listing ms
                   @ ''). Misconfigured mail servers can be exploited as open relays for spam, phishing ''
                   @ ''campaigns, or credential attacks. Enforce authentication, disable unnecessary ''
                   @ ''protocols, and implement email filtering.'')
                  \<in> set (simulate_attack_scenarios rs)
                \<and> listing ms \<noteq> [])
             \<and> (any_service_in [''DNS''] ms \<longrightarrow>
                (''HIGH: DNS Infrastructure Abuse - Exposed DNS services can be exploited for cache ''
                   @ ''poisoning, DNS amplification attacks, or unauthorized zone transfers. Implement ''
                   @ ''access controls, rate limiting, and DNSSEC.'')
                  \<in> set (simulate_attack_scenarios rs))
             \<and> (ls \<noteq> [] \<longrightarrow>
                (''RECOMMENDED: Maintain Vigilance - Detected low-risk services (''
                   @ listing ls
                   @ ''). While these services have proper security controls, continuous monitoring is ''
                   @ ''essential. Keep systems patched, monitor logs for suspicious activity, and maintain ''
                   @ ''security awareness.'')
                  \<in> set (simulate_attack_scenarios rs)
                \<and> listing ls \<noteq> []))"
proof -
  note s = simulate_structure [OF assms]
  have len: "length (simulate_attack_scenarios rs) =
           fired [any_service_in [''RDP'', ''SSH'', ''Telnet''] (tier ''HIGH'' rs),
                  any_service_in [''SMB'', ''FTP''] (tier ''HIGH'' rs),
                  any_service_in [''MySQL'', ''PostgreSQL''] (tier ''HIGH'' rs),
                  any_service_in [''Telnet''] (tier ''HIGH'' rs),
                  any_service_in [''VNC''] (tier ''HIGH'' rs),
                  any_service_in [''HTTP'', ''HTTP-Proxy'', ''HTTPS-Alt''] (tier ''MEDIUM'' rs),
                  any_service_in [''SMTP'', ''POP3'', ''IMAP''] (tier ''MEDIUM'' rs),
                  any_service_in [''DNS''] (tier ''MEDIUM'' rs),
                  tier ''LOW'' rs \<noteq> []] + 1"
    unfolding s high_narratives_def medium_narratives_def low_narrative_def length_append length_fire
    by (simp add: fired_def)
  have high: "set (high_narratives (tier ''HIGH'' rs)) \<subseteq> set (simulate_attack_scenarios rs)"
    and medium: "set (medium_narratives (tier ''MEDIUM'' rs)) \<subseteq> set (simulate_attack_scenarios rs)"
    and low: "set (low_narrative (tier ''LOW'' rs)) \<subseteq> set (simulate_attack_scenarios rs)"
    by (auto simp: s)
  have r1: "any_service_in [''RDP'', ''SSH'', ''Telnet''] (tier ''HIGH'' rs) \<longrightarrow>
           remote_access_text (services_listing (tier ''HIGH'' rs)) \<in> set (simulate_attack_scenarios rs)
           \<and> services_listing (tier ''HIGH'' rs) \<noteq> []"
    using high listing_of_fired by (auto simp: high_narratives_def fire_def)
  have r2: "any_service_in [''SMB'', ''FTP''] (tier ''HIGH'' rs) \<longrightarrow>
           lateral_movement_text (services_listing (tier ''HIGH'' rs)) \<in> set (simulate_attack_scenarios rs)
           \<and> services_listing (tier ''HIGH'' rs) \<noteq> []"
    using high listing_of_fired by (auto simp: high_narratives_def fire_def)
  have r3: "any_service_in [''MySQL'', ''PostgreSQL''] (tier ''HIGH'' rs) \<longrightarrow>
           database_text (services_listing (tier ''HIGH'' rs)) \<in> set (simulate_attack_scenarios rs)
           \<and> services_listing (tier ''HIGH'' rs) \<noteq> []"
    using high listing_of_fired by (auto simp: high_narratives_def fire_def)
  have r4: "any_service_in [''Telnet''] (tier ''HIGH'' rs) \<longrightarrow>
           telnet_text \<in> set (simulate_attack_scenarios rs)"
    using high by (auto simp: high_narratives_def fire_def)
  have r5: "any_service_in [''VNC''] (tier ''HIGH'' rs) \<longrightarrow>
           vnc_text \<in> set (simulate_attack_scenarios rs)"
    using high by (auto simp: high_narratives_def fire_def)
  have r6: "any_service_in [''HTTP'', ''HTTP-Proxy'', ''HTTPS-Alt''] (tier ''MEDIUM'' rs) \<longrightarrow>
           web_text (services_listing (tier ''MEDIUM'' rs)) \<in> set (simulate_attack_scenarios rs)
           \<and> services_listing (tier ''MEDIUM'' rs) \<noteq> []"
    using medium listing_of_fired by (auto simp: medium_narratives_def fire_def)
  have r7: "any_service_in [''SMTP'', ''POP3'', ''IMAP''] (tier ''MEDIUM'' rs) \<longrightarrow>
           email_text (services_listing (tier ''MEDIUM'' rs)) \<in> set (simulate_attack_scenarios rs)
           \<and> services_listing (tier ''MEDIUM'' rs) \<noteq> []"
    using medium listing_of_fired by (auto simp: medium_narratives_def fire_def)
  have r8: "any_service_in [''DNS''] (tier ''MEDIUM'' rs) \<longrightarrow>
           dns_text \<in> set (simulate_attack_scenarios rs)"
    using medium by (auto simp: medium_narratives_def fire_def)
  have r9: "tier ''LOW'' rs \<noteq> [] \<longrightarrow>
           vigilance_text (services_listing (tier ''LOW'' rs)) \<in> set (simulate_attack_scenarios rs)
           \<and> services_listing (tier ''LOW'' rs) \<noteq> []"
    using low services_listing_nonempty by (auto simp: low_narrative_def)
  from len r1 r2 r3 r4 r5 r6 r7 r8 r9 show ?thesis
    unfolding Let_def tier_def services_listing_def
      remote_access_text_def lateral_movement_text_def database_text_def telnet_text_def
      vnc_text_def web_text_def email_text_def dns_text_def vigilance_text_def
    by simp
qed

theorem fired_rules_list_tier_witness:
  "all_rules_results \<noteq> [] \<and>
   length (simulate_attack_scenarios all_rules_results) = 10 \<and>
   (''CRITICAL: Remote Access Exploitation - Detected remote access services (FTP(21), ''
      @ ''Telnet(23), MySQL(3306), VNC(5900)). Attackers could exploit weak credentials or ''
      @ ''protocol vulnerabilities to gain initial system access. Implement MFA, use VPN, and ''
      @ ''enforce strong password policies.'')
     \<in> set (simulate_attack_scenarios all_rules_results) \<and>
   (''CRITICAL: Lateral Movement Vector - Detected file sharing/transfer protocols ''
      @ ''(FTP(21), Telnet(23), MySQL(3306), VNC(5900)). Successfully compromised systems ''
      @ ''could leverage these services to move laterally across the network and exfiltrate ''
      @ ''sensitive data.'')
     \<in> set (simulate_attack_scenarios all_rules_results) \<and>
   (''CRITICAL: Database Compromise - Exposed database services (FTP(21), Telnet(23), ''
      @ ''MySQL(3306), VNC(5900)) are prime targets. Direct database access bypasses ''
      @ ''application security controls and could lead to complete data breach. Implement ''
      @ ''network segmentation immediately.'')
     \<in> set (simulate_attack_scenarios all_rules_results) \<and>
   (''HIGH: Web Service Exploitation - Detected web services (SMTP(25), DNS(53), ''
      @ ''HTTP(80)). These are common attack vectors for credential harvesting, session ''
      @ ''hijacking, or application exploits. Ensure all web services use HTTPS, apply ''
      @ ''security patches, and implement Web Application Firewalls.'')
     \<in> set (simulate_attack_scenarios all_rules_results) \<and>
   (''HIGH: Email Service Abuse - Detected email services (SMTP(25), DNS(53), HTTP(80)). ''
      @ ''Misconfigured mail servers can be exploited as open relays for spam, phishing ''
      @ ''campaigns, or credential attacks. Enforce authentication, disable unnecessary ''
      @ ''protocols, and implement email filtering.'')
     \<in> set (simulate_attack_scenarios all_rules_results) \<and>
   (''RECOMMENDED: Maintain Vigilance - Detected low-risk services (HTTPS(443)). While ''
      @ ''these services have proper security controls, continuous monitoring is essential. ''
      @ ''Keep systems patched, monitor logs for suspicious activity, and maintain security ''
      @ ''awareness.'')
     \<in> set (simulate_attack_scenarios all_rules_results)"
proof -
  have ne: "all_rules_results \<noteq> []" by (simp add: all_rules_results_def)
  have evaluated: ?thesis
    by (simp add: simulate_attack_scenarios_def Let_def all_rules_results_def any_service_in_def
        services_listing_def len_def str_int_def str_nat.simps digit_char_def
        remote_access_text_def lateral_movement_text_def database_text_def telnet_text_def
        vnc_text_def web_text_def email_text_def dns_text_def vigilance_text_def
        critical_summary_text_def)
  have h: "filter (\<lambda>r. risk_level r = ''HIGH'') all_rules_results
           = [all_rules_results ! 0, all_rules_results ! 1, all_rules_results ! 6, all_rules_results ! 7]"
    and m: "filter (\<lambda>r. risk_level r = ''MEDIUM'') all_rules_results
           = [all_rules_results ! 2, all_rules_results ! 3, all_rules_results ! 4]"
    and l: "filter (\<lambda>r. risk_level r = ''LOW'') all_rules_results = [all_rules_results ! 5]"
    by (simp_all add: all_rules_results_def)
  from fired_rules_list_tier [OF ne] ne show ?thesis
    unfolding Let_def h m l
    by (simp add: all_rules_results_def fired_def any_service_in_def str_int_samples)
qed

section \<open>Properties of the scanner\<close>

subsection \<open>Updating one worker\<close>

lemma sum_list_map_update:
  fixes f :: "'a \<Rightarrow> 'b::comm_monoid_add"
  shows "i < length ws \<Longrightarrow>
         sum_list (map f (ws[i := w])) + f (ws ! i) = sum_list (map f ws) + f w"
proof (induction ws arbitrary: i)
  case Nil
  then show ?case by simp
next
  case (Cons x ws)
  show ?case
  proof (cases i)
    case 0
    then show ?thesis by (simp add: ac_simps)
  next
    case (Suc j)
    with Cons.prems have "j < length ws" by simp
    from Cons.IH [OF this] Suc show ?thesis
      by (simp add: ac_simps)
  qed
qed

lemma in_flight_update:
  "i < length ws \<Longrightarrow>
   in_flight (ws[i := w]) + scanning_of (ws ! i) = in_flight ws + scanning_of w"
  unfolding in_flight_def by (rule sum_list_map_update)

lemma finishing_update:
  "i < length ws \<Longrightarrow>
   sum_list (map finishing (ws[i := w])) + finishing (ws ! i)
     = sum_list (map finishing ws) + finishing w"
  by (rule sum_list_map_update)

lemma queued_ports_append: "queued_ports (q @ q') = queued_ports q @ queued_ports q'"
  by (induction q rule: queued_ports.induct) simp_all

lemma in_flight_idle:
  "i < length ws \<Longrightarrow> scanning_of (ws ! i) = {#} \<Longrightarrow>
   in_flight (ws[i := w]) = in_flight ws + scanning_of w"
  using in_flight_update [of i ws w] by simp

lemma in_flight_scanning:
  "i < length ws \<Longrightarrow> ws ! i = Scanning p \<Longrightarrow> scanning_of w = {#} \<Longrightarrow>
   in_flight ws = add_mset p (in_flight (ws[i := w]))"
  using in_flight_update [of i ws w] by simp

lemma finishing_idle:
  "i < length ws \<Longrightarrow> finishing (ws ! i) = 0 \<Longrightarrow>
   sum_list (map finishing (ws[i := w])) = sum_list (map finishing ws) + finishing w"
  using finishing_update [of i ws w] by simp

lemma finishing_done:
  "i < length ws \<Longrightarrow> ws ! i = Finishing \<Longrightarrow> finishing w = 0 \<Longrightarrow>
   sum_list (map finishing ws) = Suc (sum_list (map finishing (ws[i := w])))"
  using finishing_update [of i ws w] by simp

subsection \<open>Steps of the main thread\<close>

lemma main_ports:
  "main_step s = Some s' \<Longrightarrow> ports_inv net ip a b s \<Longrightarrow> ports_inv net ip a b s'"
  by (auto simp: main_step_def ports_inv_def pending_def queued_ports_append
      split: main_pc.splits list.splits nat.splits if_splits)

lemma main_names:
  "main_step s = Some s' \<Longrightarrow> names_inv net s \<Longrightarrow> names_inv net s'"
  by (auto simp: main_step_def names_inv_def list_all_iff
      split: main_pc.splits list.splits nat.splits if_splits)

lemma main_tasks:
  "main_step s = Some s' \<Longrightarrow> tasks_inv u s \<Longrightarrow> tasks_inv u s'"
  by (auto simp: main_step_def tasks_inv_def queued_ports_append
      split: main_pc.splits list.splits nat.splits if_splits)

lemma main_returned:
  "main_step s = Some s' \<Longrightarrow> returned_inv s \<Longrightarrow> returned_inv s'"
  by (auto simp: main_step_def returned_inv_def
      split: main_pc.splits list.splits nat.splits if_splits)

subsection \<open>Steps of a worker\<close>

lemma worker_step_cases:
  assumes "worker_step net ip i s = Some s'"
  obtains
    (get_stop) rest where "i < length (workers s)" "workers s ! i = Waiting" "queue s = None # rest"
      "s' = s\<lparr>queue := rest, workers := (workers s)[i := Exited]\<rparr>"
  | (get_port) p rest where "i < length (workers s)" "workers s ! i = Waiting" "queue s = Some p # rest"
      "s' = s\<lparr>queue := rest, workers := (workers s)[i := Scanning p]\<rparr>"
  | (found_open) p where "i < length (workers s)" "workers s ! i = Scanning p" "scan_port net ip p"
      "s' = s\<lparr>open_ports := open_ports s @ [\<lparr>port = p, service = get_service_name net p\<rparr>],
                workers := (workers s)[i := Finishing]\<rparr>"
  | (found_closed) p where "i < length (workers s)" "workers s ! i = Scanning p" "\<not> scan_port net ip p"
      "s' = s\<lparr>open_ports := open_ports s, workers := (workers s)[i := Finishing]\<rparr>"
  | (task_done) "i < length (workers s)" "workers s ! i = Finishing" "unfinished_tasks s \<noteq> 0"
      "s' = s\<lparr>unfinished_tasks := unfinished_tasks s - 1, workers := (workers s)[i := Waiting]\<rparr>"
  | (value_error) "i < length (workers s)" "workers s ! i = Finishing" "unfinished_tasks s = 0"
      "s' = s\<lparr>workers := (workers s)[i := Exited]\<rparr>"
  using assms
  by (auto simp: worker_step_def split: if_splits worker.splits list.splits option.splits)

lemma worker_ports:
  assumes "worker_step net ip i s = Some s'" and "ports_inv net ip a b s"
  shows "ports_inv net ip a b s'"
  using assms(1)
proof (cases rule: worker_step_cases)
  case (get_stop rest)
  then have "pending s' = pending s"
    by (simp add: pending_def in_flight_idle)
  with assms(2) get_stop show ?thesis by (simp add: ports_inv_def)
next
  case (get_port p rest)
  then have "pending s' = pending s"
    by (simp add: pending_def in_flight_idle)
  with assms(2) get_port show ?thesis by (simp add: ports_inv_def)
next
  case (found_open p)
  then have "pending s = add_mset p (pending s')"
    using in_flight_scanning [of i "workers s" p Finishing] by (simp add: pending_def)
  with assms(2) found_open show ?thesis by (simp add: ports_inv_def)
next
  case (found_closed p)
  then have "pending s = add_mset p (pending s')"
    using in_flight_scanning [of i "workers s" p Finishing] by (simp add: pending_def)
  with assms(2) found_closed show ?thesis by (simp add: ports_inv_def)
next
  case task_done
  then have "pending s' = pending s"
    by (simp add: pending_def in_flight_idle)
  with assms(2) task_done show ?thesis by (simp add: ports_inv_def)
next
  case value_error
  then have "pending s' = pending s"
    by (simp add: pending_def in_flight_idle)
  with assms(2) value_error show ?thesis by (simp add: ports_inv_def)
qed

lemma worker_names:
  assumes "worker_step net ip i s = Some s'" and "names_inv net s"
  shows "names_inv net s'"
  using assms(1)
  by (cases rule: worker_step_cases) (use assms(2) in \<open>simp_all add: names_inv_def\<close>)

lemma worker_pc: "worker_step net ip i s = Some s' \<Longrightarrow> pc s' = pc s"
  by (erule worker_step_cases) simp_all

lemma worker_tasks:
  assumes "worker_step net ip i s = Some s'" and "tasks_inv u s"
  shows "tasks_inv u s'"
  using assms(1)
proof (cases rule: worker_step_cases)
  case (get_stop rest)
  with assms(2) show ?thesis
    by (auto simp: tasks_inv_def in_flight_idle finishing_idle split: if_splits)
next
  case (get_port p rest)
  with assms(2) show ?thesis
    by (auto simp: tasks_inv_def in_flight_idle finishing_idle split: if_splits)
next
  case (found_open p)
  from found_open have f: "in_flight (workers s) = add_mset p (in_flight ((workers s)[i := Finishing]))"
    using in_flight_scanning [of i "workers s" p Finishing] by simp
  from found_open have g: "sum_list (map finishing ((workers s)[i := Finishing]))
      = sum_list (map finishing (workers s)) + 1"
    using finishing_idle [of i "workers s" Finishing] by simp
  from assms(2) found_open f g show ?thesis
    by (auto simp: tasks_inv_def split: if_splits)
next
  case (found_closed p)
  from found_closed have f: "in_flight (workers s) = add_mset p (in_flight ((workers s)[i := Finishing]))"
    using in_flight_scanning [of i "workers s" p Finishing] by simp
  from found_closed have g: "sum_list (map finishing ((workers s)[i := Finishing]))
      = sum_list (map finishing (workers s)) + 1"
    using finishing_idle [of i "workers s" Finishing] by simp
  from assms(2) found_closed f g show ?thesis
    by (auto simp: tasks_inv_def split: if_splits)
next
  case task_done
  from task_done have g: "sum_list (map finishing (workers s))
      = Suc (sum_list (map finishing ((workers s)[i := Waiting])))"
    using finishing_done [of i "workers s" Waiting] by simp
  from assms(2) task_done g show ?thesis
    by (auto simp: tasks_inv_def in_flight_idle split: if_splits)
next
  case value_error
  from value_error have g: "sum_list (map finishing (workers s))
      = Suc (sum_list (map finishing ((workers s)[i := Exited])))"
    using finishing_done [of i "workers s" Exited] by simp
  from assms(2) value_error g show ?thesis
    by (auto simp: tasks_inv_def in_flight_idle split: if_splits)
qed

lemma worker_returned:
  assumes "worker_step net ip i s = Some s'" and "returned_inv s"
  shows "returned_inv s'"
proof -
  have "pc s \<noteq> Returned"
  proof
    assume r: "pc s = Returned"
    with assms(2) have "list_all (\<lambda>w. w = Exited) (workers s)"
      by (simp add: returned_inv_def)
    moreover from assms(1) have "i < length (workers s)" "workers s ! i \<noteq> Exited"
      by (auto simp: worker_step_def split: if_splits)
    ultimately show False by (simp add: list_all_length)
  qed
  with worker_pc [OF assms(1)] show ?thesis by (simp add: returned_inv_def)
qed

subsection \<open>Every schedule\<close>

lemma step_inv:
  "step net ip e s = Some s' \<Longrightarrow> scan_inv net ip a b u s \<Longrightarrow> scan_inv net ip a b u s'"
  by (cases e)
    (auto simp: scan_inv_def
      intro: main_ports main_names main_tasks main_returned
             worker_ports worker_names worker_tasks worker_returned)

lemma run_inv:
  "run net ip es s = Some s' \<Longrightarrow> scan_inv net ip a b u s \<Longrightarrow> scan_inv net ip a b u s'"
proof (induction es arbitrary: s)
  case Nil
  then show ?case by simp
next
  case (Cons e es)
  from Cons.prems(1) obtain t where t: "step net ip e s = Some t" "run net ip es t = Some s'"
    by (auto split: option.splits)
  from step_inv [OF t(1) Cons.prems(2)] have "scan_inv net ip a b u t" .
  from Cons.IH [OF t(2) this] show ?case .
qed

lemma in_flight_replicate: "in_flight (replicate n Waiting) = {#}"
  by (induction n) (simp_all add: in_flight_def)

lemma finishing_replicate: "sum_list (map finishing (replicate n Waiting)) = 0"
  by (induction n) simp_all

lemma start_inv: "scan_inv net ip a b u (start_scan n u a b)"
  by (simp add: scan_inv_def start_scan_def ports_inv_def names_inv_def tasks_inv_def
      returned_inv_def pending_def in_flight_replicate finishing_replicate)

lemma sorted_filter_upto: "sorted (filter P [a..b])"
  by (simp add: sorted_wrt_filter)

lemma names_map:
  "list_all (\<lambda>r. service r = get_service_name net (port r)) (rs :: port_info list) \<Longrightarrow>
   rs = map (\<lambda>p. \<lparr>port = p, service = get_service_name net p\<rparr>) (map port rs)"
  by (induction rs) simp_all

lemma returned_state:
  assumes "scan_inv net ip a b u s" and "pc s = Returned"
  shows "open_ports s = open_in_range net ip a b"
proof -
  from assms have p: "pending s = {#}"
    by (simp add: scan_inv_def tasks_inv_def pending_def)
  from assms(1) p have "mset (map port (open_ports s)) = mset (filter (scan_port net ip) [a..b])"
    by (simp add: scan_inv_def ports_inv_def)
  moreover from assms have "sorted (map port (open_ports s))"
    by (simp add: scan_inv_def returned_inv_def)
  ultimately have "map port (open_ports s) = filter (scan_port net ip) [a..b]"
    using sorted_filter_upto [of "scan_port net ip" a b]
    by (metis properties_for_sort)
  moreover from assms(1) have "open_ports s
      = map (\<lambda>p. \<lparr>port = p, service = get_service_name net p\<rparr>) (map port (open_ports s))"
    by (intro names_map) (simp add: scan_inv_def names_inv_def)
  ultimately show ?thesis by (simp add: open_in_range_def)
qed

lemma scan_result:
  assumes "scan net n u schedule ip a b = Some result"
  shows "result = open_in_range net ip a b"
proof -
  from assms obtain s where s: "run net ip schedule (start_scan n u a b) = Some s"
      "pc s = Returned" "result = open_ports s"
    by (auto simp: scan_def split: option.splits if_splits)
  from run_inv [OF s(1) start_inv] have "scan_inv net ip a b u s" .
  from returned_state [OF this s(2)] s(3) show ?thesis by simp
qed

lemma scan_properties:
  assumes "scan net n u schedule ip start_port end_port = Some result"
  shows "(\<forall>r \<in> set result. start_port \<le> port r \<and> port r \<le> end_port) \<and>
         distinct (map port result) \<and>
         sorted (map port result) \<and>
         result = open_in_range net ip start_port end_port"
proof -
  have r: "result = open_in_range net ip start_port end_port"
    using assms by (rule scan_result)
  have m: "map port (open_in_range net ip start_port end_port)
           = filter (scan_port net ip) [start_port..end_port]"
    by (simp add: open_in_range_def comp_def)
  have "\<forall>r \<in> set result. start_port \<le> port r \<and> port r \<le> end_port"
  proof
    fix x assume "x \<in> set result"
    then have "port x \<in> set (map port result)" by simp
    then show "start_port \<le> port x \<and> port x \<le> end_port"
      unfolding r m by simp
  qed
  moreover have "distinct (map port result)"
    unfolding r m by simp
  moreover have "sorted (map port result)"
    unfolding r m by (rule sorted_filter_upto)
  ultimately show ?thesis using r by blast
qed

subsection \<open>A schedule that returns\<close>

lemma run_append:
  "run net ip (es @ es') s =
     (case run net ip es s of None \<Rightarrow> None | Some t \<Rightarrow> run net ip es' t)"
  by (induction es arbitrary: s) (simp_all split: option.splits)

lemma run_append_Some:
  "run net ip es s = Some t \<Longrightarrow> run net ip (es @ es') s = run net ip es' t"
  by (simp add: run_append)

lemma put_phase:
  "pc s = Putting ps \<Longrightarrow>
   \<exists>t. run net ip (replicate (length ps) Main) s = Some t \<and> pc t = Putting [] \<and>
       queue t = queue s @ map Some ps \<and>
       unfinished_tasks t = unfinished_tasks s + length ps \<and> workers t = workers s"
proof (induction ps arbitrary: s)
  case Nil
  then show ?case by simp
next
  case (Cons p ps)
  let ?s1 = "s\<lparr>queue := queue s @ [Some p], unfinished_tasks := unfinished_tasks s + 1,
               pc := Putting ps\<rparr>"
  from Cons.prems have st: "main_step s = Some ?s1"
    by (simp add: main_step_def)
  have "pc ?s1 = Putting ps" by simp
  from Cons.IH [OF this] obtain t where
    t: "run net ip (replicate (length ps) Main) ?s1 = Some t" "pc t = Putting []"
       "queue t = queue ?s1 @ map Some ps"
       "unfinished_tasks t = unfinished_tasks ?s1 + length ps" "workers t = workers ?s1"
    by blast
  from st t have "run net ip (replicate (length (p # ps)) Main) s = Some t \<and> pc t = Putting [] \<and>
       queue t = queue s @ map Some (p # ps) \<and>
       unfinished_tasks t = unfinished_tasks s + length (p # ps) \<and> workers t = workers s"
    by simp
  then show ?case by blast
qed

lemma work_phase:
  "workers s = Waiting # ws \<Longrightarrow> queue s = map Some ps @ q \<Longrightarrow> length ps \<le> unfinished_tasks s \<Longrightarrow>
   \<exists>t. run net ip (concat (replicate (length ps) [Worker 0, Worker 0, Worker 0])) s = Some t \<and>
       pc t = pc s \<and> queue t = q \<and>
       unfinished_tasks t = unfinished_tasks s - length ps \<and> workers t = workers s"
proof (induction ps arbitrary: s)
  case Nil
  then show ?case by simp
next
  case (Cons p ps)
  let ?s1 = "s\<lparr>queue := map Some ps @ q, workers := (workers s)[0 := Scanning p]\<rparr>"
  let ?s2 = "?s1\<lparr>open_ports :=
                     (if scan_port net ip p
                      then open_ports ?s1 @ [\<lparr>port = p, service = get_service_name net p\<rparr>]
                      else open_ports ?s1),
                   workers := (workers ?s1)[0 := Finishing]\<rparr>"
  let ?s3 = "?s2\<lparr>unfinished_tasks := unfinished_tasks ?s2 - 1,
                   workers := (workers ?s2)[0 := Waiting]\<rparr>"
  from Cons.prems have a: "worker_step net ip 0 s = Some ?s1"
    by (simp add: worker_step_def)
  from Cons.prems have b: "worker_step net ip 0 ?s1 = Some ?s2"
    by (simp add: worker_step_def)
  from Cons.prems have c: "worker_step net ip 0 ?s2 = Some ?s3"
    by (simp add: worker_step_def)
  from Cons.prems have w: "workers ?s3 = Waiting # ws" and q: "queue ?s3 = map Some ps @ q"
    and u: "length ps \<le> unfinished_tasks ?s3"
    by simp_all
  from Cons.IH [OF w q u] obtain t where
    t: "run net ip (concat (replicate (length ps) [Worker 0, Worker 0, Worker 0])) ?s3 = Some t"
       "pc t = pc ?s3" "queue t = q" "unfinished_tasks t = unfinished_tasks ?s3 - length ps"
       "workers t = workers ?s3"
    by blast
  have "run net ip (concat (replicate (length (p # ps)) [Worker 0, Worker 0, Worker 0])) s
        = run net ip (concat (replicate (length ps) [Worker 0, Worker 0, Worker 0])) ?s3"
    using a b c by simp
  with t Cons.prems have
    "run net ip (concat (replicate (length (p # ps)) [Worker 0, Worker 0, Worker 0])) s = Some t \<and>
       pc t = pc s \<and> queue t = q \<and>
       unfinished_tasks t = unfinished_tasks s - length (p # ps) \<and> workers t = workers s"
    by simp
  then show ?case by blast
qed

lemma stop_phase:
  "pc s = Stopping k \<Longrightarrow>
   \<exists>t. run net ip (replicate k Main) s = Some t \<and> pc t = Stopping 0 \<and>
       queue t = queue s @ replicate k None \<and> workers t = workers s"
proof (induction k arbitrary: s)
  case 0
  then show ?case by simp
next
  case (Suc k)
  let ?s1 = "s\<lparr>queue := queue s @ [None], unfinished_tasks := unfinished_tasks s + 1,
               pc := Stopping k\<rparr>"
  from Suc.prems have st: "main_step s = Some ?s1"
    by (simp add: main_step_def)
  have "pc ?s1 = Stopping k" by simp
  from Suc.IH [OF this] obtain t where
    t: "run net ip (replicate k Main) ?s1 = Some t" "pc t = Stopping 0"
       "queue t = queue ?s1 @ replicate k None" "workers t = workers ?s1"
    by blast
  from st t have "run net ip (replicate (Suc k) Main) s = Some t \<and> pc t = Stopping 0 \<and>
       queue t = queue s @ replicate (Suc k) None \<and> workers t = workers s"
    by (simp add: replicate_append_same)
  then show ?case by blast
qed

lemma exit_phase:
  "workers s = replicate j Exited @ replicate m Waiting \<Longrightarrow> queue s = replicate m None \<Longrightarrow>
   \<exists>t. run net ip (map Worker [j..<j + m]) s = Some t \<and> pc t = pc s \<and>
       workers t = replicate (j + m) Exited"
proof (induction m arbitrary: j s)
  case 0
  then show ?case by simp
next
  case (Suc m)
  let ?s1 = "s\<lparr>queue := replicate m None, workers := (workers s)[j := Exited]\<rparr>"
  from Suc.prems have nth: "workers s ! j = Waiting" and len: "j < length (workers s)"
    by (simp_all add: nth_append)
  from Suc.prems nth len have st: "worker_step net ip j s = Some ?s1"
    by (simp add: worker_step_def)
  from Suc.prems have w: "workers ?s1 = replicate (Suc j) Exited @ replicate m Waiting"
    by (simp add: list_update_append replicate_append_same)
  have q: "queue ?s1 = replicate m None" by simp
  from Suc.IH [OF w q] obtain t where
    t: "run net ip (map Worker [Suc j..<Suc j + m]) ?s1 = Some t" "pc t = pc ?s1"
       "workers t = replicate (Suc j + m) Exited"
    by blast
  have "[j..<j + Suc m] = j # [Suc j..<Suc j + m]"
    by (simp add: upt_conv_Cons)
  with st t have "run net ip (map Worker [j..<j + Suc m]) s = Some t \<and> pc t = pc s \<and>
       workers t = replicate (j + Suc m) Exited"
    by simp
  then show ?case by blast
qed

lemma sequential_run:
  "\<exists>t. run net ip (sequential_schedule (Suc n) (length [a..b])) (start_scan (Suc n) 0 a b) = Some t
       \<and> pc t = Returned"
proof -
  let ?k = "length [a..b]"
  let ?s0 = "start_scan (Suc n) 0 a b"
  have "pc ?s0 = Putting [a..b]" by (simp add: start_scan_def)
  from put_phase [OF this, of net ip] obtain s1 where
    s1: "run net ip (replicate ?k Main) ?s0 = Some s1" "pc s1 = Putting []"
        "queue s1 = map Some [a..b]" "unfinished_tasks s1 = ?k"
        "workers s1 = replicate (Suc n) Waiting"
    by (auto simp: start_scan_def)
  let ?s2 = "s1\<lparr>pc := Joining\<rparr>"
  have s2: "run net ip [Main] s1 = Some ?s2"
    using s1(2) by (simp add: main_step_def)
  have "workers ?s2 = Waiting # replicate n Waiting" "queue ?s2 = map Some [a..b] @ []"
      "length [a..b] \<le> unfinished_tasks ?s2"
    using s1 by simp_all
  from work_phase [OF this, of net ip] obtain s3 where
    s3: "run net ip (concat (replicate ?k [Worker 0, Worker 0, Worker 0])) ?s2 = Some s3"
        "pc s3 = Joining" "queue s3 = []" "unfinished_tasks s3 = 0"
        "workers s3 = replicate (Suc n) Waiting"
    using s1 by auto
  let ?s4 = "s3\<lparr>pc := Stopping (Suc n)\<rparr>"
  have s4: "run net ip [Main] s3 = Some ?s4"
    using s3 by (simp add: main_step_def)
  have "pc ?s4 = Stopping (Suc n)" by simp
  from stop_phase [OF this, of net ip] obtain s5 where
    s5: "run net ip (replicate (Suc n) Main) ?s4 = Some s5" "pc s5 = Stopping 0"
        "queue s5 = replicate (Suc n) None" "workers s5 = replicate (Suc n) Waiting"
    using s3 by auto
  let ?s6 = "s5\<lparr>pc := JoiningThreads\<rparr>"
  have s6: "run net ip [Main] s5 = Some ?s6"
    using s5 by (simp add: main_step_def)
  have "workers ?s6 = replicate 0 Exited @ replicate (Suc n) Waiting"
      "queue ?s6 = replicate (Suc n) None"
    using s5 by simp_all
  from exit_phase [OF this, of net ip] obtain s7 where
    s7: "run net ip (map Worker [0..<Suc n]) ?s6 = Some s7" "pc s7 = JoiningThreads"
        "workers s7 = replicate (Suc n) Exited"
    by auto
  let ?s8 = "s7\<lparr>open_ports := sort_key port (open_ports s7), pc := Returned\<rparr>"
  have "list_all (\<lambda>w. w = Exited) (workers s7)"
    using s7(3) by (simp add: list_all_iff)
  then have s8: "run net ip [Main] s7 = Some ?s8"
    using s7 by (simp add: main_step_def)
  have "run net ip (sequential_schedule (Suc n) ?k) ?s0 = Some ?s8"
    unfolding sequential_schedule_def
    by (simp only: run_append_Some [OF s1(1)] run_append_Some [OF s2] run_append_Some [OF s3(1)]
        run_append_Some [OF s4] run_append_Some [OF s5(1)] run_append_Some [OF s6]
        run_append_Some [OF s7(1)] s8)
  then show ?thesis by auto
qed

lemma sequential_scan:
  "scan net (Suc n) 0 (sequential_schedule (Suc n) (length [a..b])) ip a b
     = Some (open_in_range net ip a b)"
proof -
  obtain t where t: "run net ip (sequential_schedule (Suc n) (length [a..b])) (start_scan (Suc n) 0 a b) = Some t"
      "pc t = Returned"
    using sequential_run by blast
  then have "scan net (Suc n) 0 (sequential_schedule (Suc n) (length [a..b])) ip a b = Some (open_ports t)"
    by (simp add: scan_def)
  with scan_result [OF this] show ?thesis by simp
qed

text \<open>
  A scan that starts with a positive count of unfinished tasks never returns: the count
  never falls below its start value, so \<open>queue.join()\<close> blocks on every schedule. A
  scan that returned leaves the count at the number of its threads (below, 2 after the
  sample scan), so this is the case of every later scan of the same scanner object.
\<close>

lemma reused_scanner_never_returns:
  assumes "0 < u"
  shows "scan net n u schedule ip a b = None"
proof (rule ccontr)
  assume "scan net n u schedule ip a b \<noteq> None"
  then obtain s where s: "run net ip schedule (start_scan n u a b) = Some s" "pc s = Returned"
    by (auto simp: scan_def split: option.splits if_splits)
  from run_inv [OF s(1) start_inv] have "tasks_inv u s"
    by (simp add: scan_inv_def)
  with s(2) assms show False by (simp add: tasks_inv_def)
qed

lemma sample_counter_left:
  "map_option unfinished_tasks (run sample_net ''10.0.0.1'' sample_schedule (start_scan 2 0 21 23))
     = Some 2"
  by code_simp

subsection \<open>The result of a scan\<close>

text \<open>
  Claim C3. Whatever the order in which the threads take their steps, and whatever count of
  unfinished tasks the scanner object starts the scan with, the list a scan returns has
  only ports of the requested range, has no port twice and is sorted ascending by port: it
  is the list of the open ports of the range in ascending order. On a new scanner object
  with at least one worker thread there is a schedule on which the scan returns.
\<close>

theorem scan_sorted_unique_in_range:
  "(scan net n u schedule ip start_port end_port = Some result \<longrightarrow>
      (\<forall>r \<in> set result. start_port \<le> port r \<and> port r \<le> end_port) \<and>
      distinct (map port result) \<and>
      sorted (map port result) \<and>
      result = open_in_range net ip start_port end_port) \<and>
   (0 < n \<longrightarrow>
      scan net n 0 (sequential_schedule n (length [start_port..end_port])) ip start_port end_port
        = Some (open_in_range net ip start_port end_port))"
proof -
  have "scan net n 0 (sequential_schedule n (length [start_port..end_port])) ip start_port end_port
        = Some (open_in_range net ip start_port end_port)" if "0 < n"
  proof -
    from that obtain m where "n = Suc m" by (cases n) simp_all
    then show ?thesis using sequential_scan [of net m start_port end_port ip] by (simp only:)
  qed
  moreover have "(\<forall>r \<in> set result. start_port \<le> port r \<and> port r \<le> end_port) \<and>
      distinct (map port result) \<and> sorted (map port result) \<and>
      result = open_in_range net ip start_port end_port"
    if "scan net n u schedule ip start_port end_port = Some result"
    using that by (rule scan_properties)
  ultimately show ?thesis by blast
qed

theorem scan_sorted_unique_in_range_witness:
  "scan sample_net 2 0 sample_schedule ''10.0.0.1'' 21 23
     = Some [\<lparr>port = 21, service = ''FTP''\<rparr>, \<lparr>port = 23, service = ''Telnet''\<rparr>] \<and>
   map_option open_ports (run sample_net ''10.0.0.1'' (take 11 sample_schedule) (start_scan 2 0 21 23))
     = Some [\<lparr>port = 23, service = ''Telnet''\<rparr>, \<lparr>port = 21, service = ''FTP''\<rparr>] \<and>
   open_in_range sample_net ''10.0.0.1'' 21 23
     = [\<lparr>port = 21, service = ''FTP''\<rparr>, \<lparr>port = 23, service = ''Telnet''\<rparr>] \<and>
   (0::nat) < 2 \<and>
   scan sample_net 2 0 (sequential_schedule 2 (length [21..23::int])) ''10.0.0.1'' 21 23
     = Some [\<lparr>port = 21, service = ''FTP''\<rparr>, \<lparr>port = 23, service = ''Telnet''\<rparr>] \<and>
   run sample_net ''10.0.0.1'' (replicate 5 Main) (start_scan 2 0 21 23) = None"
proof -
  have returned: "scan sample_net 2 0 sample_schedule ''10.0.0.1'' 21 23
      = Some [\<lparr>port = 21, service = ''FTP''\<rparr>, \<lparr>port = 23, service = ''Telnet''\<rparr>]"
    by code_simp
  have appended: "map_option open_ports
        (run sample_net ''10.0.0.1'' (take 11 sample_schedule) (start_scan 2 0 21 23))
      = Some [\<lparr>port = 23, service = ''Telnet''\<rparr>, \<lparr>port = 21, service = ''FTP''\<rparr>]"
    by code_simp
  have sequential: "scan sample_net 2 0 (sequential_schedule 2 (length [21..23::int])) ''10.0.0.1'' 21 23
      = Some [\<lparr>port = 21, service = ''FTP''\<rparr>, \<lparr>port = 23, service = ''Telnet''\<rparr>]"
    by code_simp
  have blocked: "run sample_net ''10.0.0.1'' (replicate 5 Main) (start_scan 2 0 21 23) = None"
    by code_simp
  from scan_sorted_unique_in_range [of sample_net 2 0 sample_schedule "''10.0.0.1''" 21 23
      "[\<lparr>port = 21, service = ''FTP''\<rparr>, \<lparr>port = 23, service = ''Telnet''\<rparr>]"]
    returned appended blocked
  show ?thesis by simp
qed

text \<open>
  Claim C5, as the code has it. The claim says that a target that cannot be resolved aborts the
  scan with a failure. \<open>scan_port\<close> catches \<open>socket.gaierror\<close> and returns \<open>False\<close>, so the
  scan of a new scanner object runs to its end and returns the empty list.
\<close>

theorem unresolved_target_returns_empty_counterexample:
  "connect_ex unresolvable_net ''no-such-host.invalid'' 1 = Inl Gaierror \<and>
   scan_port unresolvable_net ''no-such-host.invalid'' 1 = False \<and>
   scan unresolvable_net 1 0 (sequential_schedule 1 3) ''no-such-host.invalid'' 1 3 = Some []"
  by code_simp

text \<open>
  Claim C5, amended. When the target cannot be resolved, no failure leaves the probe of a
  port: \<open>scan_port\<close> returns \<open>False\<close>, the port counts as closed, and a scan that returns
  returns the empty list.
\<close>

theorem unresolved_target_scan_returns_empty:
  assumes "\<forall>p. connect_ex net ip p = Inl Gaierror"
  shows "(\<forall>p. scan_port net ip p = False) \<and>
         (scan net n u schedule ip start_port end_port = Some result \<longrightarrow> result = [])"
proof -
  from assms have c: "\<forall>p. scan_port net ip p = False"
    by (simp add: scan_port_def)
  then have e: "open_in_range net ip start_port end_port = []"
    by (simp add: open_in_range_def)
  have "result = []" if "scan net n u schedule ip start_port end_port = Some result"
    using scan_result [OF that] e by simp
  with c show ?thesis by blast
qed

theorem unresolved_target_scan_returns_empty_witness:
  "(\<forall>p. connect_ex unresolvable_net ''no-such-host.invalid'' p = Inl Gaierror) \<and>
   scan_port unresolvable_net ''no-such-host.invalid'' 80 = False \<and>
   scan unresolvable_net 2 0 (sequential_schedule 2 3) ''no-such-host.invalid'' 79 81 = Some []"
proof -
  have h: "\<forall>p. connect_ex unresolvable_net ''no-such-host.invalid'' p = Inl Gaierror"
    by (simp add: unresolvable_net_def)
  have r: "scan unresolvable_net 2 0 (sequential_schedule 2 3) ''no-such-host.invalid'' 79 81 = Some []"
    by code_simp
  from unresolved_target_scan_returns_empty [OF h, of 2 0 "sequential_schedule 2 3" 79 81 "[]"] h r
  show ?thesis by blast
qed

end
